theory Spec2Isabelle
  imports Main "HOL-Library.Product_Lexorder"
begin

section \<open>The program's data\<close>

text \<open>
  \<^verbatim>\<open>sql.cpp\<close> is a client of MySQL Connector/C++: every function is a sequence of calls on a
  \<^verbatim>\<open>sql::Connection\<close>.  The structs of the source are records; C++ \<^verbatim>\<open>int\<close> and the SQL type
  \<^verbatim>\<open>INT\<close> are both 32-bit signed, and the program only compares such values (it never
  adds or multiplies them), so they are modelled as \<^typ>\<open>int\<close>.
\<close>

record DbConfig =
  cfg_host :: string
  cfg_user :: string
  cfg_pass :: string
  cfg_schema :: string

definition default_DbConfig :: DbConfig where
  "default_DbConfig =
     \<lparr>cfg_host = ''tcp://127.0.0.1:3306'', cfg_user = ''root'',
      cfg_pass = ''sinatra1'', cfg_schema = ''testdb''\<rparr>"

record User =
  u_id :: int
  u_name :: string
  u_age :: int

text \<open>
  \<^verbatim>\<open>sql::SQLException\<close> carries a message, a numeric error code and an SQLState; any other
  exception derived from \<^verbatim>\<open>std::exception\<close> carries its message only.
\<close>

datatype sql_exception =
  SqlError (what: string) (getErrorCode: int) (getSQLStateCStr: string)

datatype exn = SQLException sql_exception | StdException string

text \<open>A value bound to a placeholder of a prepared statement (\<^verbatim>\<open>setString\<close>, \<^verbatim>\<open>setInt\<close>, \<^verbatim>\<open>setNull\<close>).\<close>

datatype param = PString string | PInt int | PNull

type_synonym bindings = "nat \<Rightarrow> param option"

text \<open>
  One row of a \<^verbatim>\<open>sql::ResultSet\<close>, as the program reads it: \<^verbatim>\<open>getInt(1)\<close> by column
  index, \<^verbatim>\<open>getInt("id")\<close>, \<^verbatim>\<open>getString("name")\<close> and \<^verbatim>\<open>isNull("age")\<close> by column label.
  A result set is the list of its rows; \<^verbatim>\<open>next()\<close> steps through it.
\<close>

record rs_row =
  getInt_at :: "nat \<Rightarrow> int"
  getInt :: "string \<Rightarrow> int"
  getString :: "string \<Rightarrow> string"
  isNull :: "string \<Rightarrow> bool"

text \<open>The calls that reach the connection, in the order the program issues them.\<close>

datatype request =
    GetDriverInstance
  | Connect string string string
  | Close
  | CreateStatement
  | Execute string
  | ExecuteQuery string
  | SetSchema string
  | PrepareStatement string
  | PsExecuteUpdate string bindings
  | PsExecuteQuery string bindings
  | SetAutoCommit bool
  | Commit
  | Rollback

text \<open>
  The connector library and the database behind it are not part of the repository.  The
  program's functions take them as a parameter: a \<open>driver\<close> gives, for every call of the
  connector that the program makes, the result (an exception or a value) and the new state
  of the service.  Nothing is assumed about a driver.
\<close>

record 's driver =
  d_get_driver_instance :: "'s \<Rightarrow> (exn + unit) \<times> 's"
  d_connect :: "string \<Rightarrow> string \<Rightarrow> string \<Rightarrow> 's \<Rightarrow> (exn + unit) \<times> 's"
  d_close :: "'s \<Rightarrow> 's"
  d_createStatement :: "'s \<Rightarrow> (exn + unit) \<times> 's"
  d_execute :: "string \<Rightarrow> 's \<Rightarrow> (exn + unit) \<times> 's"
  d_executeQuery :: "string \<Rightarrow> 's \<Rightarrow> (exn + rs_row list) \<times> 's"
  d_setSchema :: "string \<Rightarrow> 's \<Rightarrow> (exn + unit) \<times> 's"
  d_prepareStatement :: "string \<Rightarrow> 's \<Rightarrow> (exn + unit) \<times> 's"
  d_ps_executeUpdate :: "string \<Rightarrow> bindings \<Rightarrow> 's \<Rightarrow> (exn + int) \<times> 's"
  d_ps_executeQuery :: "string \<Rightarrow> bindings \<Rightarrow> 's \<Rightarrow> (exn + rs_row list) \<times> 's"
  d_setAutoCommit :: "bool \<Rightarrow> 's \<Rightarrow> (exn + unit) \<times> 's"
  d_commit :: "'s \<Rightarrow> (exn + unit) \<times> 's"
  d_rollback :: "'s \<Rightarrow> (exn + unit) \<times> 's"

text \<open>
  What a run of the program can change: the state of the service, the list of requests sent
  to it so far, and the two output streams.
\<close>

record 's world =
  server :: 's
  trace :: "request list"
  cout :: string
  cerr :: string

section \<open>Statements that may throw\<close>

type_synonym ('s, 'a) prog = "'s world \<Rightarrow> (exn + 'a) \<times> 's world"

definition ret :: "'a \<Rightarrow> ('s, 'a) prog" where
  "ret a w = (Inr a, w)"

definition throw :: "exn \<Rightarrow> ('s, 'a) prog" where
  "throw e w = (Inl e, w)"

text \<open>Sequencing: an exception of the first statement skips the rest.\<close>

definition bindE :: "('s, 'a) prog \<Rightarrow> ('a \<Rightarrow> ('s, 'b) prog) \<Rightarrow> ('s, 'b) prog" where
  "bindE m f w = (case m w of (Inl e, w') \<Rightarrow> (Inl e, w') | (Inr a, w') \<Rightarrow> f a w')"

text \<open>\<^verbatim>\<open>try { m } catch (const sql::SQLException& e) { h e }\<close>: other exceptions pass through.\<close>

definition try_catch_sql ::
  "('s, 'a) prog \<Rightarrow> (sql_exception \<Rightarrow> ('s, 'a) prog) \<Rightarrow> ('s, 'a) prog" where
  "try_catch_sql m h w =
     (case m w of
        (Inl (SQLException e), w') \<Rightarrow> h e w'
      | (Inl (StdException msg), w') \<Rightarrow> (Inl (StdException msg), w')
      | (Inr a, w') \<Rightarrow> (Inr a, w'))"

text \<open>\<^verbatim>\<open>try { m } catch (...) { h }\<close>.\<close>

definition try_catch_all :: "('s, 'a) prog \<Rightarrow> ('s, 'a) prog \<Rightarrow> ('s, 'a) prog" where
  "try_catch_all m h w = (case m w of (Inl e, w') \<Rightarrow> h w' | (Inr a, w') \<Rightarrow> (Inr a, w'))"

text \<open>A call of the connector: the request is recorded, the driver decides the outcome.\<close>

definition call :: "request \<Rightarrow> ('s \<Rightarrow> (exn + 'a) \<times> 's) \<Rightarrow> ('s, 'a) prog" where
  "call rq f w =
     (case f (server w) of (r, s') \<Rightarrow> (r, w\<lparr>server := s', trace := trace w @ [rq]\<rparr>))"

definition print_out :: "string \<Rightarrow> ('s, unit) prog" where
  "print_out txt w = (Inr (), w\<lparr>cout := cout w @ txt\<rparr>)"

definition print_err :: "string \<Rightarrow> ('s, unit) prog" where
  "print_err txt w = (Inr (), w\<lparr>cerr := cerr w @ txt\<rparr>)"

subsection \<open>Formatting of the output streams\<close>

definition nl :: string where
  "nl = [CHR 0x0A]"

fun show_nat :: "nat \<Rightarrow> string" where
  "show_nat n =
     (if n < 10 then [''0123456789'' ! n]
      else show_nat (n div 10) @ [''0123456789'' ! (n mod 10)])"

declare show_nat.simps [simp del]

definition show_int :: "int \<Rightarrow> string" where
  "show_int i = (if i < 0 then ''-'' @ show_nat (nat (- i)) else show_nat (nat i))"

text \<open>\<^verbatim>\<open>std::left << std::setw(n) << s\<close>: pad on the right up to width \<open>n\<close>, never cut.\<close>

definition setw_left :: "nat \<Rightarrow> string \<Rightarrow> string" where
  "setw_left n s = s @ replicate (n - length s) (CHR '' '')"

section \<open>The connector's calls\<close>

definition get_mysql_driver_instance :: "'s driver \<Rightarrow> ('s, unit) prog" where
  "get_mysql_driver_instance drv = call GetDriverInstance (d_get_driver_instance drv)"

definition connect :: "'s driver \<Rightarrow> string \<Rightarrow> string \<Rightarrow> string \<Rightarrow> ('s, unit) prog" where
  "connect drv h u p = call (Connect h u p) (d_connect drv h u p)"

definition createStatement :: "'s driver \<Rightarrow> ('s, unit) prog" where
  "createStatement drv = call CreateStatement (d_createStatement drv)"

definition execute :: "'s driver \<Rightarrow> string \<Rightarrow> ('s, unit) prog" where
  "execute drv sql = call (Execute sql) (d_execute drv sql)"

definition executeQuery :: "'s driver \<Rightarrow> string \<Rightarrow> ('s, rs_row list) prog" where
  "executeQuery drv sql = call (ExecuteQuery sql) (d_executeQuery drv sql)"

definition setSchema :: "'s driver \<Rightarrow> string \<Rightarrow> ('s, unit) prog" where
  "setSchema drv nm = call (SetSchema nm) (d_setSchema drv nm)"

definition setAutoCommit :: "'s driver \<Rightarrow> bool \<Rightarrow> ('s, unit) prog" where
  "setAutoCommit drv b = call (SetAutoCommit b) (d_setAutoCommit drv b)"

definition commit :: "'s driver \<Rightarrow> ('s, unit) prog" where
  "commit drv = call Commit (d_commit drv)"

definition rollback :: "'s driver \<Rightarrow> ('s, unit) prog" where
  "rollback drv = call Rollback (d_rollback drv)"

text \<open>
  A \<^verbatim>\<open>sql::PreparedStatement\<close> object: its text and the values bound so far.  The setters
  change the object only; \<^verbatim>\<open>executeUpdate\<close> and \<^verbatim>\<open>executeQuery\<close> send text and bindings.
  (The connector rejects a placeholder index outside the statement; the program only uses
  the constant indices 1 and 2 of statements with that many placeholders.)
\<close>

record pstmt =
  ps_sql :: string
  ps_params :: bindings

definition prepareStatement :: "'s driver \<Rightarrow> string \<Rightarrow> ('s, pstmt) prog" where
  "prepareStatement drv sql =
     bindE (call (PrepareStatement sql) (d_prepareStatement drv sql))
       (\<lambda>_. ret \<lparr>ps_sql = sql, ps_params = Map.empty\<rparr>)"

definition setString :: "pstmt \<Rightarrow> nat \<Rightarrow> string \<Rightarrow> pstmt" where
  "setString ps i v = ps\<lparr>ps_params := (ps_params ps)(i \<mapsto> PString v)\<rparr>"

definition setInt :: "pstmt \<Rightarrow> nat \<Rightarrow> int \<Rightarrow> pstmt" where
  "setInt ps i v = ps\<lparr>ps_params := (ps_params ps)(i \<mapsto> PInt v)\<rparr>"

definition setNull :: "pstmt \<Rightarrow> nat \<Rightarrow> pstmt" where
  "setNull ps i = ps\<lparr>ps_params := (ps_params ps)(i \<mapsto> PNull)\<rparr>"

definition ps_executeUpdate :: "'s driver \<Rightarrow> pstmt \<Rightarrow> ('s, int) prog" where
  "ps_executeUpdate drv ps =
     call (PsExecuteUpdate (ps_sql ps) (ps_params ps))
       (d_ps_executeUpdate drv (ps_sql ps) (ps_params ps))"

definition ps_executeQuery :: "'s driver \<Rightarrow> pstmt \<Rightarrow> ('s, rs_row list) prog" where
  "ps_executeQuery drv ps =
     call (PsExecuteQuery (ps_sql ps) (ps_params ps))
       (d_ps_executeQuery drv (ps_sql ps) (ps_params ps))"

section \<open>The functions of \<^verbatim>\<open>sql.cpp\<close>\<close>

subsection \<open>\<^verbatim>\<open>printSqlError\<close>\<close>

definition sql_error_line :: "sql_exception \<Rightarrow> string \<Rightarrow> string" where
  "sql_error_line e at =
     ''[SQL ERROR @ '' @ at @ ''] '' @ what e
       @ '' | MySQL error code: '' @ show_int (getErrorCode e)
       @ '' | SQLState: '' @ getSQLStateCStr e @ nl"

definition printSqlError :: "sql_exception \<Rightarrow> string \<Rightarrow> ('s, unit) prog" where
  "printSqlError e at = print_err (sql_error_line e at)"

subsection \<open>\<^verbatim>\<open>ensureSchemaAndTables\<close>\<close>

definition create_database_sql :: "string \<Rightarrow> string" where
  "create_database_sql schema = ''CREATE DATABASE IF NOT EXISTS `'' @ schema @ ''`''"

definition create_table_sql :: string where
  "create_table_sql =
     ''CREATE TABLE IF NOT EXISTS users (''
     @ ''  id INT AUTO_INCREMENT PRIMARY KEY,''
     @ ''  name VARCHAR(100) NOT NULL,''
     @ ''  age INT NULL,''
     @ ''  UNIQUE KEY uq_users_name (name)''
     @ '') ENGINE=InnoDB DEFAULT CHARSET=utf8mb4;''"

definition ensureSchemaAndTables :: "'s driver \<Rightarrow> string \<Rightarrow> ('s, unit) prog" where
  "ensureSchemaAndTables drv schema =
     bindE (createStatement drv) (\<lambda>_.
     bindE (execute drv (create_database_sql schema)) (\<lambda>_.
     bindE (setSchema drv schema) (\<lambda>_.
     execute drv create_table_sql)))"

subsection \<open>\<^verbatim>\<open>insertUser\<close> and \<^verbatim>\<open>insertUsersBulk\<close>\<close>

definition insert_sql :: string where
  "insert_sql = ''INSERT INTO users(name, age) VALUES(?, ?)''"

definition last_insert_id_sql :: string where
  "last_insert_id_sql = ''SELECT LAST_INSERT_ID()''"

text \<open>The two setter calls that both insert functions make for a user.\<close>

definition bind_user :: "pstmt \<Rightarrow> User \<Rightarrow> pstmt" where
  "bind_user ps u =
     (let ps1 = setString ps 1 (u_name u)
      in if u_age u = 0 then setNull ps1 2 else setInt ps1 2 (u_age u))"

definition insertUser :: "'s driver \<Rightarrow> User \<Rightarrow> ('s, int) prog" where
  "insertUser drv u =
     bindE (prepareStatement drv insert_sql) (\<lambda>ps.
     bindE (ps_executeUpdate drv (bind_user ps u)) (\<lambda>_.
     bindE (createStatement drv) (\<lambda>_.
     bindE (executeQuery drv last_insert_id_sql) (\<lambda>r.
     ret (case r of [] \<Rightarrow> 0 | row # _ \<Rightarrow> getInt_at row 1)))))"

fun insertUsersBulk_loop :: "'s driver \<Rightarrow> pstmt \<Rightarrow> User list \<Rightarrow> ('s, unit) prog" where
  "insertUsersBulk_loop drv ps [] = ret ()"
| "insertUsersBulk_loop drv ps (u # us) =
     bindE (ps_executeUpdate drv (bind_user ps u))
       (\<lambda>_. insertUsersBulk_loop drv (bind_user ps u) us)"

definition insertUsersBulk :: "'s driver \<Rightarrow> User list \<Rightarrow> ('s, unit) prog" where
  "insertUsersBulk drv users =
     bindE (prepareStatement drv insert_sql) (\<lambda>ps. insertUsersBulk_loop drv ps users)"

subsection \<open>\<^verbatim>\<open>updateUserAgeByName\<close>\<close>

definition update_sql :: string where
  "update_sql = ''UPDATE users SET age = ? WHERE name = ?''"

definition updateUserAgeByName :: "'s driver \<Rightarrow> string \<Rightarrow> int \<Rightarrow> ('s, int) prog" where
  "updateUserAgeByName drv nm newAge =
     bindE (prepareStatement drv update_sql) (\<lambda>ps.
     ps_executeUpdate drv (setString (setInt ps 1 newAge) 2 nm))"

subsection \<open>\<^verbatim>\<open>getUsersByMinAge\<close>\<close>

definition select_sql :: string where
  "select_sql =
     ''SELECT id, name, age FROM users WHERE age >= ? ORDER BY age DESC, id ASC''"

definition user_of_row :: "rs_row \<Rightarrow> User" where
  "user_of_row rs =
     \<lparr>u_id = getInt rs ''id'', u_name = getString rs ''name'',
      u_age = (if isNull rs ''age'' then 0 else getInt rs ''age'')\<rparr>"

text \<open>The \<^verbatim>\<open>while (rs->next())\<close> loop with its \<^verbatim>\<open>push_back\<close>.\<close>

fun fetch_users :: "rs_row list \<Rightarrow> User list \<Rightarrow> User list" where
  "fetch_users [] out = out"
| "fetch_users (rs # rest) out = fetch_users rest (out @ [user_of_row rs])"

definition getUsersByMinAge :: "'s driver \<Rightarrow> int \<Rightarrow> ('s, User list) prog" where
  "getUsersByMinAge drv minAge =
     bindE (prepareStatement drv select_sql) (\<lambda>ps.
     bindE (ps_executeQuery drv (setInt ps 1 minAge)) (\<lambda>rs.
     ret (fetch_users rs [])))"

subsection \<open>\<^verbatim>\<open>demoTransaction\<close>\<close>

text \<open>The body of the \<^verbatim>\<open>try\<close> block.\<close>

definition demo_try :: "'s driver \<Rightarrow> ('s, unit) prog" where
  "demo_try drv =
     bindE (insertUsersBulk drv
              [\<lparr>u_id = 0, u_name = ''alice'', u_age = 24\<rparr>,
               \<lparr>u_id = 0, u_name = ''bob'', u_age = 29\<rparr>]) (\<lambda>_.
     bindE (updateUserAgeByName drv ''alice'' 25) (\<lambda>changed.
     bindE (print_out (''Rows updated: '' @ show_int changed @ nl)) (\<lambda>_.
     bindE (commit drv) (\<lambda>_.
     bindE (setAutoCommit drv True) (\<lambda>_.
     print_out (''Transaction committed.'' @ nl))))))"

text \<open>The inner \<^verbatim>\<open>try { con->rollback(); ... } catch (const sql::SQLException& e2)\<close>.\<close>

definition demo_rollback :: "'s driver \<Rightarrow> ('s, unit) prog" where
  "demo_rollback drv =
     try_catch_sql
       (bindE (rollback drv) (\<lambda>_. print_err (''Transaction rolled back.'' @ nl)))
       (\<lambda>e2. printSqlError e2 ''rollback'')"

text \<open>The handler \<^verbatim>\<open>catch (const sql::SQLException& e)\<close>, ending in \<^verbatim>\<open>throw;\<close>.\<close>

definition demo_catch :: "'s driver \<Rightarrow> sql_exception \<Rightarrow> ('s, unit) prog" where
  "demo_catch drv e =
     bindE (printSqlError e ''demoTransaction'') (\<lambda>_.
     bindE (demo_rollback drv) (\<lambda>_.
     bindE (setAutoCommit drv True) (\<lambda>_.
     throw (SQLException e))))"

definition demoTransaction :: "'s driver \<Rightarrow> ('s, unit) prog" where
  "demoTransaction drv =
     bindE (setAutoCommit drv False) (\<lambda>_.
     try_catch_sql (demo_try drv) (demo_catch drv))"

subsection \<open>\<^verbatim>\<open>main\<close>\<close>

definition delete_sql :: string where
  "delete_sql = ''DELETE FROM users''"

definition select_all_sql :: string where
  "select_all_sql = ''SELECT id, name, age FROM users ORDER BY id''"

text \<open>Step 7's table of results: a header line, then one line for each user.\<close>

definition results_line :: "User \<Rightarrow> string" where
  "results_line u =
     setw_left 5 (show_int (u_id u)) @ setw_left 12 (u_name u)
       @ show_int (if u_age u = 0 then - 1 else u_age u) @ nl"

definition print_results :: "User list \<Rightarrow> ('s, unit) prog" where
  "print_results results =
     bindE (print_out (nl @ ''Users with age >= 25:'' @ nl)) (\<lambda>_.
     bindE (print_out (setw_left 5 ''ID'' @ setw_left 12 ''Name'' @ ''Age'' @ nl)) (\<lambda>_.
     print_out (concat (map results_line results))))"

text \<open>Step 9's listing, read straight from the result set.\<close>

definition final_line :: "rs_row \<Rightarrow> string" where
  "final_line rs =
     ''ID='' @ show_int (getInt rs ''id'')
       @ '' | name='' @ getString rs ''name''
       @ '' | age='' @ show_int (if isNull rs ''age'' then - 1 else getInt rs ''age'') @ nl"

definition print_final :: "rs_row list \<Rightarrow> ('s, unit) prog" where
  "print_final rs =
     bindE (print_out (nl @ ''Final users:'' @ nl)) (\<lambda>_.
     print_out (concat (map final_line rs)))"

text \<open>
  The scope of \<^verbatim>\<open>std::unique_ptr<sql::Connection> con\<close>: on every way out of it, normal or
  by an exception, the connection is deleted, which closes it.
\<close>

definition with_connection :: "'s driver \<Rightarrow> ('s, 'a) prog \<Rightarrow> ('s, 'a) prog" where
  "with_connection drv m w =
     (case m w of
        (r, w') \<Rightarrow> (r, w'\<lparr>server := d_close drv (server w'), trace := trace w' @ [Close]\<rparr>))"

text \<open>Steps 3 to 9, which run while the connection is open.\<close>

definition main_steps :: "'s driver \<Rightarrow> DbConfig \<Rightarrow> ('s, unit) prog" where
  "main_steps drv cfg =
     bindE (ensureSchemaAndTables drv (cfg_schema cfg)) (\<lambda>_.
     bindE (createStatement drv) (\<lambda>_.
     bindE (execute drv delete_sql) (\<lambda>_.
     bindE (insertUser drv \<lparr>u_id = 0, u_name = ''carol'', u_age = 32\<rparr>) (\<lambda>newId.
     bindE (print_out (''Inserted carol with id = '' @ show_int newId @ nl)) (\<lambda>_.
     bindE (try_catch_all (demoTransaction drv)
              (print_err (''Transaction demo failed (rolled back).'' @ nl))) (\<lambda>_.
     bindE (getUsersByMinAge drv 25) (\<lambda>results.
     bindE (print_results results) (\<lambda>_.
     bindE (updateUserAgeByName drv ''bob'' 31) (\<lambda>affected.
     bindE (print_out (nl @ ''Updated rows (bob -> 31): '' @ show_int affected @ nl)) (\<lambda>_.
     bindE (createStatement drv) (\<lambda>_.
     bindE (executeQuery drv select_all_sql) (\<lambda>rs.
     print_final rs))))))))))))"

text \<open>The outer \<^verbatim>\<open>try\<close> block of \<^verbatim>\<open>main\<close>.\<close>

definition main_try :: "'s driver \<Rightarrow> DbConfig \<Rightarrow> ('s, unit) prog" where
  "main_try drv cfg =
     bindE (get_mysql_driver_instance drv) (\<lambda>_.
     bindE (connect drv (cfg_host cfg) (cfg_user cfg) (cfg_pass cfg)) (\<lambda>_.
     with_connection drv (main_steps drv cfg)))"

text \<open>\<^verbatim>\<open>main\<close> with its two handlers; the result is the exit code.\<close>

definition main :: "'s driver \<Rightarrow> 's world \<Rightarrow> int \<times> 's world" where
  "main drv w =
     (case main_try drv default_DbConfig w of
        (Inr _, w') \<Rightarrow> (0, w')
      | (Inl (SQLException e), w') \<Rightarrow> (1, snd (printSqlError e ''main'' w'))
      | (Inl (StdException msg), w') \<Rightarrow> (1, snd (print_err (''[STD ERROR] '' @ msg @ nl) w')))"


section \<open>A model of the database service\<close>

text \<open>
  The claims about stored rows need a driver that stores rows.  \<open>mysql_driver\<close> is such a
  driver: a model of one MySQL session, in which each statement text that \<^verbatim>\<open>sql.cpp\<close> sends
  has its SQL meaning, and any other text is rejected.  It is a model of a service outside
  the repository, kept to what the program's statements need:
  \<^item> a database holds at most the table \<open>users\<close>, with the columns of \<open>create_table_sql\<close>;
  \<^item> every database is an ordinary one: the server's own schemas (\<open>information_schema\<close> and
    the like), in which no table can be created, are not part of the model;
  \<^item> names are compared as byte strings (no collation);
  \<^item> a statement that fails changes nothing;
  \<^item> besides the errors of SQL itself, any call can be made to fail: \<open>fault s n rq\<close> is the
    exception, if any, that the \<open>n\<close>-th call of the session raises when it is the request
    \<open>rq\<close> (a lost connection, a missing privilege, ...).
\<close>

record row =
  rid :: int
  rname :: string
  rage :: "int option"

text \<open>
  The table \<open>users\<close>: the rows the session sees, in insertion order; the rows as of the last
  commit; and the \<^verbatim>\<open>AUTO_INCREMENT\<close> counter, which a rollback does not turn back.
\<close>

record table =
  trows :: "row list"
  tsaved :: "row list"
  tnext :: int

text \<open>A database is its table \<open>users\<close>, if that has been created.\<close>

type_synonym database = "table option"

record mysql =
  dbs :: "string \<Rightarrow> database option"
  cur :: "string option"
  autocommit :: bool
  last_id :: int
  fault :: "nat \<Rightarrow> request \<Rightarrow> exn option"
  clock :: nat

definition sql_err :: "string \<Rightarrow> int \<Rightarrow> string \<Rightarrow> exn" where
  "sql_err msg code st = SQLException (SqlError msg code st)"

definition ER_PARSE_ERROR :: exn where
  "ER_PARSE_ERROR = sql_err ''You have an error in your SQL syntax'' 1064 ''42000''"

definition ER_NO_DB_ERROR :: exn where
  "ER_NO_DB_ERROR = sql_err ''No database selected'' 1046 ''3D000''"

definition ER_BAD_DB_ERROR :: exn where
  "ER_BAD_DB_ERROR = sql_err ''Unknown database'' 1049 ''42000''"

definition ER_NO_SUCH_TABLE :: exn where
  "ER_NO_SUCH_TABLE = sql_err ''Table users does not exist'' 1146 ''42S02''"

definition ER_DUP_ENTRY :: exn where
  "ER_DUP_ENTRY = sql_err ''Duplicate entry for key uq_users_name'' 1062 ''23000''"

definition ER_BAD_NULL_ERROR :: exn where
  "ER_BAD_NULL_ERROR = sql_err ''Column name cannot be null'' 1048 ''23000''"

definition ER_DATA_TOO_LONG :: exn where
  "ER_DATA_TOO_LONG = sql_err ''Data too long for column name'' 1406 ''22001''"

definition ER_AUTOINC_READ_FAILED :: exn where
  "ER_AUTOINC_READ_FAILED =
     sql_err ''Failed to read auto-increment value from storage engine'' 1467 ''HY000''"

definition ER_WRONG_DB_NAME :: exn where
  "ER_WRONG_DB_NAME = sql_err ''Incorrect database name'' 1102 ''42000''"

definition ER_TOO_LONG_IDENT :: exn where
  "ER_TOO_LONG_IDENT = sql_err ''Identifier name is too long'' 1059 ''42000''"

definition ER_WRONG_VALUE :: exn where
  "ER_WRONG_VALUE = sql_err ''Incorrect integer value'' 1366 ''HY000''"

definition CR_PARAMS_NOT_BOUND :: exn where
  "CR_PARAMS_NOT_BOUND =
     sql_err ''No data supplied for parameters in prepared statement'' 2031 ''HY000''"

text \<open>Every call passes the fault plan first and advances the session's call counter.\<close>

definition guarded ::
  "request \<Rightarrow> (mysql \<Rightarrow> (exn + 'a) \<times> mysql) \<Rightarrow> mysql \<Rightarrow> (exn + 'a) \<times> mysql" where
  "guarded rq f s =
     (case fault s (clock s) rq of
        Some e \<Rightarrow> (Inl e, s\<lparr>clock := Suc (clock s)\<rparr>)
      | None \<Rightarrow> f (s\<lparr>clock := Suc (clock s)\<rparr>))"

subsection \<open>Transactions\<close>

definition map_tables :: "(table \<Rightarrow> table) \<Rightarrow> mysql \<Rightarrow> mysql" where
  "map_tables f s = s\<lparr>dbs := (\<lambda>d. map_option (map_option f) (dbs s d))\<rparr>"

definition commit_all :: "mysql \<Rightarrow> mysql" where
  "commit_all = map_tables (\<lambda>t. t\<lparr>tsaved := trows t\<rparr>)"

definition rollback_all :: "mysql \<Rightarrow> mysql" where
  "rollback_all = map_tables (\<lambda>t. t\<lparr>trows := tsaved t\<rparr>)"

text \<open>After a successful data statement: committed at once when autocommit is on.\<close>

definition after_dml :: "mysql \<Rightarrow> mysql" where
  "after_dml s = (if autocommit s then commit_all s else s)"

subsection \<open>Schema statements\<close>

definition backtick :: char where
  "backtick = CHR 0x60"

text \<open>
  \<^verbatim>\<open>CREATE DATABASE IF NOT EXISTS `name`\<close>: a backtick ends the quoted identifier, so a text
  is read as this statement only when the identifier runs to the closing backtick at the
  very end.  (A doubled backtick inside, SQL's escape, is not modelled: such a text is
  rejected here.)
\<close>

definition parse_create_database :: "string \<Rightarrow> string option" where
  "parse_create_database sql =
     (let n = length (create_database_sql []) - 1; nm = butlast (drop n sql)
      in if take n sql = take n (create_database_sql []) \<and> n < length sql
            \<and> last sql = backtick \<and> backtick \<notin> set nm
         then Some nm else None)"

text \<open>MySQL's rules for a database name: not empty, at most 64 long, no space at the end.\<close>

definition create_database :: "string \<Rightarrow> mysql \<Rightarrow> (exn + unit) \<times> mysql" where
  "create_database nm s =
     (if nm = [] \<or> last nm = CHR '' '' then (Inl ER_WRONG_DB_NAME, s)
      else if 64 < length nm then (Inl ER_TOO_LONG_IDENT, s)
      else (Inr (), commit_all (if dbs s nm = None then s\<lparr>dbs := (dbs s)(nm \<mapsto> None)\<rparr> else s)))"

definition empty_table :: table where
  "empty_table = \<lparr>trows = [], tsaved = [], tnext = 1\<rparr>"

definition create_users_table :: "mysql \<Rightarrow> (exn + unit) \<times> mysql" where
  "create_users_table s =
     (case cur s of
        None \<Rightarrow> (Inl ER_NO_DB_ERROR, s)
      | Some d \<Rightarrow>
          (case dbs s d of
             None \<Rightarrow> (Inl ER_BAD_DB_ERROR, s)
           | Some None \<Rightarrow> (Inr (), commit_all (s\<lparr>dbs := (dbs s)(d \<mapsto> Some empty_table)\<rparr>))
           | Some (Some t) \<Rightarrow> (Inr (), commit_all s)))"

subsection \<open>Data statements\<close>

text \<open>The table \<open>users\<close> of the session's default database, or the error of using it.\<close>

definition users_table :: "mysql \<Rightarrow> exn + string \<times> table" where
  "users_table s =
     (case cur s of
        None \<Rightarrow> Inl ER_NO_DB_ERROR
      | Some d \<Rightarrow>
          (case dbs s d of
             None \<Rightarrow> Inl ER_BAD_DB_ERROR
           | Some None \<Rightarrow> Inl ER_NO_SUCH_TABLE
           | Some (Some t) \<Rightarrow> Inr (d, t)))"

definition put_table :: "string \<Rightarrow> table \<Rightarrow> mysql \<Rightarrow> mysql" where
  "put_table d t s = s\<lparr>dbs := (dbs s)(d \<mapsto> Some t)\<rparr>"

definition delete_all :: "mysql \<Rightarrow> (exn + unit) \<times> mysql" where
  "delete_all s =
     (case users_table s of
        Inl e \<Rightarrow> (Inl e, s)
      | Inr (d, t) \<Rightarrow> (Inr (), after_dml (put_table d (t\<lparr>trows := []\<rparr>) s)))"

text \<open>
  The value bound to a placeholder, read as a text or as an integer; \<open>None\<close> is SQL's
  \<^verbatim>\<open>NULL\<close>.  An execution with a placeholder left unbound is refused.
\<close>

fun text_arg :: "param option \<Rightarrow> exn + string option" where
  "text_arg None = Inl CR_PARAMS_NOT_BOUND"
| "text_arg (Some PNull) = Inr None"
| "text_arg (Some (PString v)) = Inr (Some v)"
| "text_arg (Some (PInt i)) = Inr (Some (show_int i))"

fun int_arg :: "param option \<Rightarrow> exn + int option" where
  "int_arg None = Inl CR_PARAMS_NOT_BOUND"
| "int_arg (Some PNull) = Inr None"
| "int_arg (Some (PInt i)) = Inr (Some i)"
| "int_arg (Some (PString v)) = Inl ER_WRONG_VALUE"

text \<open>
  \<^verbatim>\<open>INSERT INTO users(name, age) VALUES(?, ?)\<close>.  The column \<open>name\<close> is \<^verbatim>\<open>VARCHAR(100) NOT NULL\<close>
  with a unique key; the new row gets the next \<^verbatim>\<open>AUTO_INCREMENT\<close> value, which
  \<^verbatim>\<open>LAST_INSERT_ID()\<close> then reports; the \<^verbatim>\<open>INT\<close> counter ends at 2147483647.
\<close>

definition do_insert :: "param option \<Rightarrow> param option \<Rightarrow> mysql \<Rightarrow> (exn + int) \<times> mysql" where
  "do_insert p1 p2 s =
     (case users_table s of
        Inl e \<Rightarrow> (Inl e, s)
      | Inr (d, t) \<Rightarrow>
          (case text_arg p1 of
             Inl e \<Rightarrow> (Inl e, s)
           | Inr None \<Rightarrow> (Inl ER_BAD_NULL_ERROR, s)
           | Inr (Some nm) \<Rightarrow>
               (case int_arg p2 of
                  Inl e \<Rightarrow> (Inl e, s)
                | Inr a \<Rightarrow>
                    if 100 < length nm then (Inl ER_DATA_TOO_LONG, s)
                    else if nm \<in> rname ` set (trows t) then (Inl ER_DUP_ENTRY, s)
                    else if 2147483647 < tnext t then (Inl ER_AUTOINC_READ_FAILED, s)
                    else (Inr 1,
                          after_dml
                            ((put_table d
                                (t\<lparr>trows := trows t @ [\<lparr>rid = tnext t, rname = nm, rage = a\<rparr>],
                                   tnext := tnext t + 1\<rparr>) s)\<lparr>last_id := tnext t\<rparr>)))))"

text \<open>
  \<^verbatim>\<open>UPDATE users SET age = ? WHERE name = ?\<close>.  The count MySQL reports for an \<^verbatim>\<open>UPDATE\<close> is
  the number of rows actually changed: a row that matches but already holds the new value
  is not counted.  (The count of matched rows is reported only on a connection opened with
  the option \<^verbatim>\<open>CLIENT_FOUND_ROWS\<close>; \<^verbatim>\<open>main\<close> connects without options.)  A comparison
  with \<^verbatim>\<open>NULL\<close> matches no row.
\<close>

definition do_update :: "param option \<Rightarrow> param option \<Rightarrow> mysql \<Rightarrow> (exn + int) \<times> mysql" where
  "do_update p1 p2 s =
     (case users_table s of
        Inl e \<Rightarrow> (Inl e, s)
      | Inr (d, t) \<Rightarrow>
          (case int_arg p1 of
             Inl e \<Rightarrow> (Inl e, s)
           | Inr a \<Rightarrow>
               (case text_arg p2 of
                  Inl e \<Rightarrow> (Inl e, s)
                | Inr nm \<Rightarrow>
                    (Inr (int (length (filter (\<lambda>r. Some (rname r) = nm \<and> rage r \<noteq> a) (trows t)))),
                     after_dml
                       (put_table d
                          (t\<lparr>trows :=
                               map (\<lambda>r. if Some (rname r) = nm then r\<lparr>rage := a\<rparr> else r)
                                 (trows t)\<rparr>)
                          s)))))"

text \<open>A row of \<open>users\<close> as a row of a result set with the columns \<open>id\<close>, \<open>name\<close>, \<open>age\<close>.\<close>

definition age_or_0 :: "row \<Rightarrow> int" where
  "age_or_0 r = (case rage r of None \<Rightarrow> 0 | Some a \<Rightarrow> a)"

definition user_rs :: "row \<Rightarrow> rs_row" where
  "user_rs r =
     \<lparr>getInt_at = (\<lambda>i. if i = 1 then rid r else if i = 3 then age_or_0 r else 0),
      getInt = (\<lambda>c. if c = ''id'' then rid r else if c = ''age'' then age_or_0 r else 0),
      getString = (\<lambda>c. if c = ''name'' then rname r else []),
      isNull = (\<lambda>c. c = ''age'' \<and> rage r = None)\<rparr>"

definition scalar_rs :: "int \<Rightarrow> rs_row" where
  "scalar_rs v =
     \<lparr>getInt_at = (\<lambda>i. if i = 1 then v else 0), getInt = (\<lambda>c. 0),
      getString = (\<lambda>c. []), isNull = (\<lambda>c. False)\<rparr>"

text \<open>
  \<^verbatim>\<open>WHERE age >= ?\<close>: a comparison with \<^verbatim>\<open>NULL\<close> is not true, so a row without an age is never
  selected, whatever the bound.
\<close>

definition age_at_least :: "int \<Rightarrow> row \<Rightarrow> bool" where
  "age_at_least m r = (case rage r of None \<Rightarrow> False | Some a \<Rightarrow> m \<le> a)"

text \<open>\<^verbatim>\<open>ORDER BY age DESC, id ASC\<close>, as a sort key in ascending lexicographic order.\<close>

definition order_key :: "row \<Rightarrow> int \<times> int" where
  "order_key r = (- age_or_0 r, rid r)"

definition do_select :: "param option \<Rightarrow> mysql \<Rightarrow> (exn + rs_row list) \<times> mysql" where
  "do_select p1 s =
     (case users_table s of
        Inl e \<Rightarrow> (Inl e, s)
      | Inr (d, t) \<Rightarrow>
          (case int_arg p1 of
             Inr (Some m) \<Rightarrow>
               (Inr (map user_rs (sort_key order_key (filter (age_at_least m) (trows t)))), s)
           | Inr None \<Rightarrow> (Inr [], s)
           | Inl e \<Rightarrow> (Inl e, s)))"

definition do_select_all :: "mysql \<Rightarrow> (exn + rs_row list) \<times> mysql" where
  "do_select_all s =
     (case users_table s of
        Inl e \<Rightarrow> (Inl e, s)
      | Inr (d, t) \<Rightarrow> (Inr (map user_rs (sort_key rid (trows t))), s))"

subsection \<open>The driver\<close>

definition mysql_execute :: "string \<Rightarrow> mysql \<Rightarrow> (exn + unit) \<times> mysql" where
  "mysql_execute sql s =
     (if sql = create_table_sql then create_users_table s
      else if sql = delete_sql then delete_all s
      else case parse_create_database sql of
             Some nm \<Rightarrow> create_database nm s
           | None \<Rightarrow> (Inl ER_PARSE_ERROR, s))"

definition mysql_executeQuery :: "string \<Rightarrow> mysql \<Rightarrow> (exn + rs_row list) \<times> mysql" where
  "mysql_executeQuery sql s =
     (if sql = last_insert_id_sql then (Inr [scalar_rs (last_id s)], s)
      else if sql = select_all_sql then do_select_all s
      else (Inl ER_PARSE_ERROR, s))"

definition mysql_setSchema :: "string \<Rightarrow> mysql \<Rightarrow> (exn + unit) \<times> mysql" where
  "mysql_setSchema nm s =
     (if dbs s nm = None then (Inl ER_BAD_DB_ERROR, s) else (Inr (), s\<lparr>cur := Some nm\<rparr>))"

text \<open>Preparing a statement has the server parse it, which needs its table.\<close>

definition mysql_prepare :: "string \<Rightarrow> mysql \<Rightarrow> (exn + unit) \<times> mysql" where
  "mysql_prepare sql s =
     (if sql = insert_sql \<or> sql = update_sql \<or> sql = select_sql
      then (case users_table s of Inl e \<Rightarrow> (Inl e, s) | Inr _ \<Rightarrow> (Inr (), s))
      else (Inl ER_PARSE_ERROR, s))"

definition mysql_ps_executeUpdate :: "string \<Rightarrow> bindings \<Rightarrow> mysql \<Rightarrow> (exn + int) \<times> mysql" where
  "mysql_ps_executeUpdate sql b s =
     (if sql = insert_sql then do_insert (b 1) (b 2) s
      else if sql = update_sql then do_update (b 1) (b 2) s
      else (Inl ER_PARSE_ERROR, s))"

definition mysql_ps_executeQuery ::
  "string \<Rightarrow> bindings \<Rightarrow> mysql \<Rightarrow> (exn + rs_row list) \<times> mysql" where
  "mysql_ps_executeQuery sql b s =
     (if sql = select_sql then do_select (b 1) s else (Inl ER_PARSE_ERROR, s))"

text \<open>
  A new session starts with autocommit on and no default database, and sees committed rows
  only.  Switching autocommit on commits the open transaction.  Closing the session drops
  what it has not committed.
\<close>

definition mysql_connect :: "mysql \<Rightarrow> (exn + unit) \<times> mysql" where
  "mysql_connect s = (Inr (), (rollback_all s)\<lparr>cur := None, autocommit := True, last_id := 0\<rparr>)"

definition mysql_setAutoCommit :: "bool \<Rightarrow> mysql \<Rightarrow> (exn + unit) \<times> mysql" where
  "mysql_setAutoCommit b s = (Inr (), (if b then commit_all s else s)\<lparr>autocommit := b\<rparr>)"

definition mysql_driver :: "mysql driver" where
  "mysql_driver =
     \<lparr>d_get_driver_instance = guarded GetDriverInstance (\<lambda>s. (Inr (), s)),
      d_connect = (\<lambda>h u p. guarded (Connect h u p) mysql_connect),
      d_close = rollback_all,
      d_createStatement = guarded CreateStatement (\<lambda>s. (Inr (), s)),
      d_execute = (\<lambda>sql. guarded (Execute sql) (mysql_execute sql)),
      d_executeQuery = (\<lambda>sql. guarded (ExecuteQuery sql) (mysql_executeQuery sql)),
      d_setSchema = (\<lambda>nm. guarded (SetSchema nm) (mysql_setSchema nm)),
      d_prepareStatement = (\<lambda>sql. guarded (PrepareStatement sql) (mysql_prepare sql)),
      d_ps_executeUpdate =
        (\<lambda>sql b. guarded (PsExecuteUpdate sql b) (mysql_ps_executeUpdate sql b)),
      d_ps_executeQuery =
        (\<lambda>sql b. guarded (PsExecuteQuery sql b) (mysql_ps_executeQuery sql b)),
      d_setAutoCommit = (\<lambda>b. guarded (SetAutoCommit b) (mysql_setAutoCommit b)),
      d_commit = guarded Commit (\<lambda>s. (Inr (), commit_all s)),
      d_rollback = guarded Rollback (\<lambda>s. (Inr (), rollback_all s))\<rparr>"

section \<open>Notions used to state the claims\<close>

subsection \<open>Plans of failures\<close>

text \<open>The plan of a session on which nothing is made to fail.\<close>

definition no_faults :: "nat \<Rightarrow> request \<Rightarrow> exn option" where
  "no_faults n rq = None"

text \<open>
  An outcome that is not a generic exception, and a call of the service that leaves the plan
  as it is and never ends in a generic exception of its own.
\<close>

definition sql_exn :: "exn \<Rightarrow> bool" where
  "sql_exn e = (case e of SQLException x \<Rightarrow> True | StdException msg \<Rightarrow> False)"

definition no_std :: "exn + 'a \<Rightarrow> bool" where
  "no_std r = (case r of Inl e \<Rightarrow> sql_exn e | Inr a \<Rightarrow> True)"

definition sql_step :: "(mysql \<Rightarrow> (exn + 'a) \<times> mysql) \<Rightarrow> bool" where
  "sql_step f = (\<forall>s. fault (snd (f s)) = fault s \<and> no_std (fst (f s)))"

text \<open>
  The last call that a world records was served, not refused by the plan: the plan holds no
  exception for the request at the end of the trace, at the count the session had when the
  request arrived.
\<close>

definition last_call_served :: "mysql world \<Rightarrow> bool" where
  "last_call_served w =
     (trace w \<noteq> [] \<and> fault (server w) (clock (server w) - 1) (last (trace w)) = None)"

text \<open>
  A program that leaves the plan as it is, and that ends in a generic exception only when the
  plan refused its last call with one.
\<close>

definition std_from_plan :: "(mysql, 'a) prog \<Rightarrow> bool" where
  "std_from_plan m =
     (\<forall>w. fault (server (snd (m w))) = fault (server w)
          \<and> (\<forall>msg. fst (m w) = Inl (StdException msg) \<longrightarrow> \<not> last_call_served (snd (m w))))"

subsection \<open>Well-formed tables\<close>

text \<open>
  The identifiers of a table are positive and below its \<^verbatim>\<open>AUTO_INCREMENT\<close> counter.  This holds
  for a new table, and every call of the model keeps it (\<open>mysql_driver_keeps_tables_ok\<close>).
\<close>

definition ids_below :: "int \<Rightarrow> row list \<Rightarrow> bool" where
  "ids_below n rows = list_all (\<lambda>r. 0 < rid r \<and> rid r < n) rows"

definition table_ok :: "table \<Rightarrow> bool" where
  "table_ok t = (0 < tnext t \<and> ids_below (tnext t) (trows t) \<and> ids_below (tnext t) (tsaved t))"

definition tables_ok :: "mysql \<Rightarrow> bool" where
  "tables_ok s = (\<forall>d t. dbs s d = Some (Some t) \<longrightarrow> table_ok t)"

definition keeps_tables_ok :: "(mysql \<Rightarrow> 'a \<times> mysql) \<Rightarrow> bool" where
  "keeps_tables_ok f = (\<forall>s. tables_ok s \<longrightarrow> tables_ok (snd (f s)))"

subsection \<open>Requests, rows and results\<close>

text \<open>
  The values that \<^verbatim>\<open>insertUser\<close> and \<^verbatim>\<open>insertUsersBulk\<close> are claimed to bind for a user, and
  the request that executes the insert with them.
\<close>

definition user_bindings :: "User \<Rightarrow> bindings" where
  "user_bindings u =
     [1 \<mapsto> PString (u_name u), 2 \<mapsto> (if u_age u = 0 then PNull else PInt (u_age u))]"


definition update_bindings :: "string \<Rightarrow> int \<Rightarrow> bindings" where
  "update_bindings nm a = [1 \<mapsto> PInt a, 2 \<mapsto> PString nm]"


text \<open>
  For an update of the age of \<open>nm\<close> to \<open>a\<close>: the rows that match the name, the rows that the
  update changes, and the table afterwards.
\<close>

definition matched :: "string \<Rightarrow> row list \<Rightarrow> nat" where
  "matched nm rows = length (filter (\<lambda>r. rname r = nm) rows)"

definition changed :: "string \<Rightarrow> int \<Rightarrow> row list \<Rightarrow> nat" where
  "changed nm a rows = length (filter (\<lambda>r. rname r = nm \<and> rage r \<noteq> Some a) rows)"

definition update_rows :: "string \<Rightarrow> int \<Rightarrow> row list \<Rightarrow> row list" where
  "update_rows nm a rows = map (\<lambda>r. if rname r = nm then r\<lparr>rage := Some a\<rparr> else r) rows"

text \<open>The rows the session sees, for every database.\<close>

definition visible_rows :: "mysql \<Rightarrow> string \<Rightarrow> row list option option" where
  "visible_rows s d = map_option (map_option trows) (dbs s d)"

text \<open>The order of the records that \<^verbatim>\<open>getUsersByMinAge\<close> is claimed to return.\<close>

definition age_desc_id_asc :: "User \<Rightarrow> User \<Rightarrow> bool" where
  "age_desc_id_asc u v = (u_age v < u_age u \<or> (u_age u = u_age v \<and> u_id u \<le> u_id v))"

text \<open>A stored row as the program's record, an absent age read as 0.\<close>

definition user_of :: "row \<Rightarrow> User" where
  "user_of r = \<lparr>u_id = rid r, u_name = rname r, u_age = age_or_0 r\<rparr>"

text \<open>
  The schema names with which \<^verbatim>\<open>ensureSchemaAndTables\<close> succeeds against the model: names
  that \<open>create_database\<close> takes and that contain no backtick, since the function puts the name
  between backticks as it is.
\<close>

definition schema_name_ok :: "string \<Rightarrow> bool" where
  "schema_name_ok nm =
     (nm \<noteq> [] \<and> length nm \<le> 64 \<and> last nm \<noteq> CHR '' '' \<and> backtick \<notin> set nm)"

text \<open>
  The state that \<^verbatim>\<open>ensureSchemaAndTables\<close> leaves after its four calls: the database and its
  table exist, the database is selected, everything is committed.
\<close>

definition bootstrapped :: "string \<Rightarrow> mysql \<Rightarrow> mysql" where
  "bootstrapped nm s =
     commit_all
       (s\<lparr>dbs := (dbs s)(nm \<mapsto> Some (case dbs s nm of Some (Some t) \<Rightarrow> t | _ \<Rightarrow> empty_table)),
          cur := Some nm, clock := clock s + 4\<rparr>)"

text \<open>The row that an insert of the user \<open>u\<close> stores under the identifier \<open>i\<close>.\<close>

definition row_of :: "int \<Rightarrow> User \<Rightarrow> row" where
  "row_of i u =
     \<lparr>rid = i, rname = u_name u, rage = (if u_age u = 0 then None else Some (u_age u))\<rparr>"

text \<open>\<^verbatim>\<open>insertUser\<close> followed by \<^verbatim>\<open>getUsersByMinAge\<close> with the minimum 0, as one program.\<close>

definition insert_then_select :: "'s driver \<Rightarrow> User \<Rightarrow> ('s, int \<times> User list) prog" where
  "insert_then_select drv u =
     bindE (insertUser drv u) (\<lambda>newId.
     bindE (getUsersByMinAge drv 0) (\<lambda>us. ret (newId, us)))"

text \<open>
  For \<^verbatim>\<open>main\<close>, which inserts three rows: the counter of \<open>testdb.users\<close>, if the table is
  there already, leaves room for them.
\<close>

definition room_for_three :: "mysql \<Rightarrow> bool" where
  "room_for_three s =
     (case dbs s ''testdb'' of Some (Some t) \<Rightarrow> tnext t \<le> 2147483645 | _ \<Rightarrow> True)"

subsection \<open>States and records for examples\<close>

text \<open>A server with nothing on it, and one whose database \<open>testdb\<close> is selected.\<close>

definition fresh_server :: mysql where
  "fresh_server =
     \<lparr>dbs = (\<lambda>d. None), cur = None, autocommit = True, last_id = 0,
      fault = no_faults, clock = 0\<rparr>"

definition server_with :: "row list \<Rightarrow> int \<Rightarrow> mysql" where
  "server_with rows nxt =
     \<lparr>dbs = [''testdb'' \<mapsto> Some \<lparr>trows = rows, tsaved = rows, tnext = nxt\<rparr>],
      cur = Some ''testdb'', autocommit = True, last_id = 0, fault = no_faults, clock = 0\<rparr>"

definition world_of :: "'s \<Rightarrow> 's world" where
  "world_of s = \<lparr>server = s, trace = [], cout = [], cerr = []\<rparr>"

definition carol :: User where
  "carol = \<lparr>u_id = 0, u_name = ''carol'', u_age = 32\<rparr>"


definition bob :: User where
  "bob = \<lparr>u_id = 0, u_name = ''bob'', u_age = 29\<rparr>"

definition bob_31 :: row where
  "bob_31 = \<lparr>rid = 1, rname = ''bob'', rage = Some 31\<rparr>"

text \<open>The stored rows of the specification's example, with any identifiers.\<close>

definition example_rows :: "int \<Rightarrow> int \<Rightarrow> int \<Rightarrow> row list" where
  "example_rows i j k =
     [\<lparr>rid = i, rname = ''bob'', rage = Some 31\<rparr>,
      \<lparr>rid = j, rname = ''carol'', rage = Some 32\<rparr>,
      \<lparr>rid = k, rname = ''alice'', rage = Some 25\<rparr>]"

definition dave :: User where
  "dave = \<lparr>u_id = 0, u_name = ''dave'', u_age = 0\<rparr>"

definition erin :: User where
  "erin = \<lparr>u_id = 0, u_name = ''erin'', u_age = - 5\<rparr>"

text \<open>Plans that fail some calls, with a lost connection or for want of memory.\<close>

definition lost_connection :: sql_exception where
  "lost_connection = SqlError ''Lost connection to MySQL server during query'' 2013 ''HY000''"

definition failing_commit_and_rollback :: "nat \<Rightarrow> request \<Rightarrow> exn option" where
  "failing_commit_and_rollback n rq =
     (case rq of Commit \<Rightarrow> Some (SQLException lost_connection)
               | Rollback \<Rightarrow> Some (SQLException lost_connection)
               | _ \<Rightarrow> None)"

definition flaky_world :: "mysql world" where
  "flaky_world = world_of ((server_with [] 1)\<lparr>fault := failing_commit_and_rollback\<rparr>)"

text \<open>
  A connection that is lost during the call with the count \<open>k\<close> and gone afterwards, and one
  that loses the call with the count \<open>k\<close> only.  In \<^verbatim>\<open>demoTransaction\<close>, started at the count 0
  on an empty table, the call with the count 6 is the commit, and the one with the count 7 is
  the \<^verbatim>\<open>setAutoCommit(true)\<close> of the body.
\<close>

definition server_gone :: sql_exception where
  "server_gone = SqlError ''MySQL server has gone away'' 2006 ''HY000''"

definition lost_from :: "nat \<Rightarrow> nat \<Rightarrow> request \<Rightarrow> exn option" where
  "lost_from k n rq =
     (if n < k then None
      else if n = k then Some (SQLException lost_connection)
      else Some (SQLException server_gone))"

definition lost_only_at :: "nat \<Rightarrow> nat \<Rightarrow> request \<Rightarrow> exn option" where
  "lost_only_at k n rq = (if n = k then Some (SQLException lost_connection) else None)"

definition dead_world :: "mysql world" where
  "dead_world = world_of ((server_with [] 1)\<lparr>fault := lost_from 6\<rparr>)"

definition hiccup_world :: "mysql world" where
  "hiccup_world = world_of ((server_with [] 1)\<lparr>fault := lost_only_at 7\<rparr>)"

text \<open>The commit is lost, and the rollback then fails for want of memory.\<close>

definition bad_alloc_on_rollback :: "nat \<Rightarrow> request \<Rightarrow> exn option" where
  "bad_alloc_on_rollback n rq =
     (case rq of Commit \<Rightarrow> Some (SQLException lost_connection)
               | Rollback \<Rightarrow> Some (StdException ''std::bad_alloc'')
               | _ \<Rightarrow> None)"

definition starved_world :: "mysql world" where
  "starved_world = world_of ((server_with [] 1)\<lparr>fault := bad_alloc_on_rollback\<rparr>)"

definition bad_alloc_on_connect :: "nat \<Rightarrow> request \<Rightarrow> exn option" where
  "bad_alloc_on_connect n rq =
     (case rq of Connect h u p \<Rightarrow> Some (StdException ''std::bad_alloc'') | _ \<Rightarrow> None)"

definition lost_on_connect :: "nat \<Rightarrow> request \<Rightarrow> exn option" where
  "lost_on_connect n rq =
     (case rq of Connect h u p \<Rightarrow> Some (SQLException lost_connection) | _ \<Rightarrow> None)"

definition lost_on_execute :: "nat \<Rightarrow> request \<Rightarrow> exn option" where
  "lost_on_execute n rq =
     (case rq of Execute sql \<Rightarrow> Some (SQLException lost_connection) | _ \<Rightarrow> None)"

section \<open>Basic facts\<close>

lemmas prog_defs = ret_def throw_def bindE_def try_catch_sql_def try_catch_all_def call_def
  print_out_def print_err_def

lemmas conn_defs = get_mysql_driver_instance_def connect_def createStatement_def execute_def
  executeQuery_def setSchema_def setAutoCommit_def commit_def rollback_def
  prepareStatement_def ps_executeUpdate_def ps_executeQuery_def

lemmas main_defs = main_def main_try_def main_steps_def with_connection_def default_DbConfig_def
  insertUser_def demoTransaction_def demo_try_def demo_catch_def demo_rollback_def
  insertUsersBulk_def updateUserAgeByName_def getUsersByMinAge_def print_results_def
  print_final_def printSqlError_def

lemmas demo_defs = demoTransaction_def demo_try_def demo_catch_def demo_rollback_def
  insertUsersBulk_def updateUserAgeByName_def printSqlError_def bind_user_def

lemmas mysql_defs = guarded_def no_faults_def mysql_prepare_def mysql_ps_executeUpdate_def
  mysql_ps_executeQuery_def mysql_execute_def mysql_executeQuery_def mysql_setSchema_def
  mysql_connect_def mysql_setAutoCommit_def do_insert_def do_update_def do_select_def
  do_select_all_def delete_all_def create_users_table_def create_database_def users_table_def
  after_dml_def put_table_def commit_all_def rollback_all_def map_tables_def

subsection \<open>Prepared statements\<close>

lemma setter_simps [simp]:
  "ps_sql (setString ps i v) = ps_sql ps" "ps_sql (setInt ps i a) = ps_sql ps"
  "ps_sql (setNull ps i) = ps_sql ps"
  "ps_params (setString ps i v) = (ps_params ps)(i \<mapsto> PString v)"
  "ps_params (setInt ps i a) = (ps_params ps)(i \<mapsto> PInt a)"
  "ps_params (setNull ps i) = (ps_params ps)(i \<mapsto> PNull)"
  by (simp_all add: setString_def setInt_def setNull_def)

lemma bind_user_sql [simp]: "ps_sql (bind_user ps u) = ps_sql ps"
  by (simp add: bind_user_def Let_def)

lemma bind_user_params:
  "ps_params (bind_user ps u) =
     (ps_params ps)(1 \<mapsto> PString (u_name u),
                    2 \<mapsto> (if u_age u = 0 then PNull else PInt (u_age u)))"
  by (simp add: bind_user_def Let_def)

text \<open>Both placeholders are bound anew for every user, so earlier bindings do not show.\<close>

lemma bind_user_fresh:
  "dom (ps_params ps) \<subseteq> {1, 2} \<Longrightarrow> ps_params (bind_user ps u) = user_bindings u"
  by (rule ext) (auto simp: bind_user_params user_bindings_def)


lemma fetch_users_map: "fetch_users rs out = out @ map user_of_row rs"
  by (induction rs arbitrary: out) auto

subsection \<open>The loop of \<^verbatim>\<open>insertUsersBulk\<close>\<close>


subsection \<open>The model of the service\<close>

lemma mysql_driver_simps [simp]:
  "d_get_driver_instance mysql_driver = guarded GetDriverInstance (\<lambda>s. (Inr (), s))"
  "d_connect mysql_driver = (\<lambda>h u p. guarded (Connect h u p) mysql_connect)"
  "d_close mysql_driver = rollback_all"
  "d_createStatement mysql_driver = guarded CreateStatement (\<lambda>s. (Inr (), s))"
  "d_execute mysql_driver = (\<lambda>sql. guarded (Execute sql) (mysql_execute sql))"
  "d_executeQuery mysql_driver = (\<lambda>sql. guarded (ExecuteQuery sql) (mysql_executeQuery sql))"
  "d_setSchema mysql_driver = (\<lambda>nm. guarded (SetSchema nm) (mysql_setSchema nm))"
  "d_prepareStatement mysql_driver = (\<lambda>sql. guarded (PrepareStatement sql) (mysql_prepare sql))"
  "d_ps_executeUpdate mysql_driver =
     (\<lambda>sql b. guarded (PsExecuteUpdate sql b) (mysql_ps_executeUpdate sql b))"
  "d_ps_executeQuery mysql_driver =
     (\<lambda>sql b. guarded (PsExecuteQuery sql b) (mysql_ps_executeQuery sql b))"
  "d_setAutoCommit mysql_driver = (\<lambda>b. guarded (SetAutoCommit b) (mysql_setAutoCommit b))"
  "d_commit mysql_driver = guarded Commit (\<lambda>s. (Inr (), commit_all s))"
  "d_rollback mysql_driver = guarded Rollback (\<lambda>s. (Inr (), rollback_all s))"
  by (simp_all add: mysql_driver_def)

lemma sql_texts_distinct [simp]:
  "insert_sql \<noteq> update_sql" "insert_sql \<noteq> select_sql" "update_sql \<noteq> select_sql"
  "update_sql \<noteq> insert_sql" "select_sql \<noteq> insert_sql" "select_sql \<noteq> update_sql"
  "last_insert_id_sql \<noteq> select_all_sql" "select_all_sql \<noteq> last_insert_id_sql"
  "delete_sql \<noteq> create_table_sql" "create_table_sql \<noteq> delete_sql"
  by (simp_all add: insert_sql_def update_sql_def select_sql_def last_insert_id_sql_def
      select_all_sql_def delete_sql_def create_table_sql_def)

lemma guarded_no_faults:
  "fault s = no_faults \<Longrightarrow> guarded rq f s = f (s\<lparr>clock := Suc (clock s)\<rparr>)"
  by (simp add: guarded_def no_faults_def)

lemma map_tables_simps [simp]:
  "cur (map_tables f s) = cur s" "autocommit (map_tables f s) = autocommit s"
  "last_id (map_tables f s) = last_id s" "fault (map_tables f s) = fault s"
  "clock (map_tables f s) = clock s"
  "dbs (map_tables f s) d = map_option (map_option f) (dbs s d)"
  by (simp_all add: map_tables_def)

lemma after_dml_simps [simp]:
  "cur (after_dml s) = cur s" "autocommit (after_dml s) = autocommit s"
  "last_id (after_dml s) = last_id s" "fault (after_dml s) = fault s"
  "clock (after_dml s) = clock s"
  by (simp_all add: after_dml_def commit_all_def)

lemma put_table_simps [simp]:
  "cur (put_table d t s) = cur s" "autocommit (put_table d t s) = autocommit s"
  "last_id (put_table d t s) = last_id s" "fault (put_table d t s) = fault s"
  "clock (put_table d t s) = clock s"
  "dbs (put_table d t s) = (dbs s)(d \<mapsto> Some t)"
  by (simp_all add: put_table_def)

lemma commit_all_simps [simp]:
  "cur (commit_all s) = cur s" "autocommit (commit_all s) = autocommit s"
  "last_id (commit_all s) = last_id s" "fault (commit_all s) = fault s"
  "clock (commit_all s) = clock s"
  "dbs (commit_all s) d = map_option (map_option (\<lambda>t. t\<lparr>tsaved := trows t\<rparr>)) (dbs s d)"
  by (simp_all add: commit_all_def)

lemma rollback_all_simps [simp]:
  "cur (rollback_all s) = cur s" "autocommit (rollback_all s) = autocommit s"
  "last_id (rollback_all s) = last_id s" "fault (rollback_all s) = fault s"
  "clock (rollback_all s) = clock s"
  "dbs (rollback_all s) d = map_option (map_option (\<lambda>t. t\<lparr>trows := tsaved t\<rparr>)) (dbs s d)"
  by (simp_all add: rollback_all_def)

lemma users_table_clock [simp]: "users_table (s\<lparr>clock := n\<rparr>) = users_table s"
  by (simp add: users_table_def split: option.splits)

lemma users_table_after_put [simp]:
  "users_table s = Inr (d, t) \<Longrightarrow> users_table (after_dml (put_table d t' s))
     = Inr (d, if autocommit s then t'\<lparr>tsaved := trows t'\<rparr> else t')"
  by (auto simp: users_table_def after_dml_def commit_all_def split: option.splits)

lemma server_with_ok [simp]:
  "fault (server (world_of (server_with rows n))) = no_faults"
  "users_table (server (world_of (server_with rows n)))
     = Inr (''testdb'', \<lparr>trows = rows, tsaved = rows, tnext = n\<rparr>)"
  by (simp_all add: world_of_def server_with_def users_table_def)

subsection \<open>Visible rows\<close>

lemma visible_rows_clock [simp]: "visible_rows (s\<lparr>clock := n\<rparr>) = visible_rows s"
  by (rule ext) (simp add: visible_rows_def)

lemma visible_rows_after_dml [simp]: "visible_rows (after_dml s) = visible_rows s"
proof (rule ext)
  fix d
  show "visible_rows (after_dml s) d = visible_rows s d"
    by (cases "dbs s d")
       (auto simp: visible_rows_def after_dml_def commit_all_def option.map_comp comp_def
          split: option.splits)
qed

lemma visible_rows_put_same:
  "users_table s = Inr (d, t) \<Longrightarrow> trows t' = trows t
     \<Longrightarrow> visible_rows (put_table d t' s) = visible_rows s"
  by (rule ext) (auto simp: visible_rows_def users_table_def split: option.splits)

subsection \<open>The update statement\<close>

lemma update_rows_no_match: "nm \<notin> rname ` set rows \<Longrightarrow> update_rows nm a rows = rows"
  by (induction rows) (auto simp: update_rows_def)

lemma update_rows_names [simp]: "map rname (update_rows nm a rows) = map rname rows"
  by (induction rows) (auto simp: update_rows_def)

lemma update_rows_ids [simp]: "map rid (update_rows nm a rows) = map rid rows"
  by (induction rows) (auto simp: update_rows_def)

lemma update_rows_ages:
  "r \<in> set (update_rows nm a rows) \<Longrightarrow> rname r = nm \<Longrightarrow> rage r = Some a"
  unfolding update_rows_def set_map by (erule imageE) (simp split: if_splits)

text \<open>A run of \<^verbatim>\<open>updateUserAgeByName\<close> against a session on which nothing is made to fail.\<close>

lemma update_run:
  assumes nf: "fault (server w) = no_faults"
      and tbl: "users_table (server w) = Inr (d, t)"
  shows "updateUserAgeByName mysql_driver nm a w =
           (Inr (int (changed nm a (trows t))),
            w\<lparr>server := after_dml (put_table d (t\<lparr>trows := update_rows nm a (trows t)\<rparr>)
                                    ((server w)\<lparr>clock := Suc (Suc (clock (server w)))\<rparr>)),
              trace := trace w @ [PrepareStatement update_sql,
                                  PsExecuteUpdate update_sql (update_bindings nm a)]\<rparr>)"
  using nf tbl
  apply (simp add: updateUserAgeByName_def conn_defs prog_defs guarded_no_faults
      mysql_prepare_def mysql_ps_executeUpdate_def do_update_def)
  apply (simp add: changed_def update_bindings_def update_rows_def)
  done

subsection \<open>The select statement\<close>

lemma user_of_row_user_rs [simp]: "user_of_row (user_rs r) = user_of r"
  by (simp add: user_of_row_def user_rs_def user_of_def age_or_0_def split: option.splits)

lemma sorted_by_order_key:
  "sorted (map order_key rows) \<Longrightarrow> sorted_wrt age_desc_id_asc (map user_of rows)"
  by (induction rows)
     (auto simp: age_desc_id_asc_def user_of_def order_key_def less_eq_prod_def)

lemma select_run:
  assumes nf: "fault (server w) = no_faults"
      and tbl: "users_table (server w) = Inr (d, t)"
  shows "fst (getUsersByMinAge mysql_driver minAge w)
           = Inr (map user_of (sort_key order_key (filter (age_at_least minAge) (trows t))))"
  using nf tbl
  by (simp add: getUsersByMinAge_def conn_defs prog_defs guarded_no_faults mysql_prepare_def
        mysql_ps_executeQuery_def do_select_def fetch_users_map comp_def)

subsection \<open>The schema statements\<close>

lemma parse_create_database_quoted:
  "backtick \<notin> set nm \<Longrightarrow> parse_create_database (create_database_sql nm) = Some nm"
  by (simp add: parse_create_database_def create_database_sql_def backtick_def Let_def)

lemma create_database_sql_distinct [simp]:
  "create_database_sql nm \<noteq> create_table_sql" "create_database_sql nm \<noteq> delete_sql"
  by (simp_all add: create_database_sql_def create_table_sql_def delete_sql_def)

lemma commit_all_idem [simp]: "commit_all (commit_all s) = commit_all s"
  by (simp add: commit_all_def map_tables_def option.map_comp comp_def)

lemma ensure_run:
  assumes nf: "fault (server w) = no_faults" and ok: "schema_name_ok nm"
  shows "ensureSchemaAndTables mysql_driver nm w =
           (Inr (), w\<lparr>server := bootstrapped nm (server w),
                      trace := trace w @ [CreateStatement, Execute (create_database_sql nm),
                                          SetSchema nm, Execute create_table_sql]\<rparr>)"
proof -
  have sel: "mysql_execute (create_database_sql nm) = create_database nm"
    using ok by (rule_tac ext) (simp add: mysql_execute_def parse_create_database_quoted schema_name_ok_def)
  have cd: "\<And>s. create_database nm s =
      (Inr (), commit_all (if dbs s nm = None then s\<lparr>dbs := (dbs s)(nm \<mapsto> None)\<rparr> else s))"
    using ok by (simp add: create_database_def schema_name_ok_def)
  show ?thesis
  proof (cases "dbs (server w) nm")
    case None
    then show ?thesis
      using nf
      apply (simp add: ensureSchemaAndTables_def conn_defs prog_defs guarded_no_faults sel cd
          mysql_setSchema_def)
      apply (simp add: mysql_execute_def create_users_table_def bootstrapped_def)
      apply (simp add: commit_all_def map_tables_def fun_eq_iff option.map_comp comp_def)
      done
  next
    case (Some db)
    then show ?thesis
      using nf
      apply (simp add: ensureSchemaAndTables_def conn_defs prog_defs guarded_no_faults sel cd
          mysql_setSchema_def)
      apply (cases db)
       apply (simp_all add: mysql_execute_def create_users_table_def bootstrapped_def)
       apply (simp_all add: commit_all_def map_tables_def fun_eq_iff option.map_comp comp_def)
      done
  qed
qed


lemma bootstrapped_simps [simp]:
  "fault (bootstrapped nm s) = fault s" "cur (bootstrapped nm s) = Some nm"
  "autocommit (bootstrapped nm s) = autocommit s"
  by (simp_all add: bootstrapped_def)

lemma bootstrapped_twice: "dbs (bootstrapped nm (bootstrapped nm s)) = dbs (bootstrapped nm s)"
  by (rule ext) (simp add: bootstrapped_def option.map_comp comp_def split: option.splits)

lemma bootstrapped_keeps:
  "dbs s d = Some (Some t) \<Longrightarrow>
     \<exists>t'. dbs (bootstrapped nm s) d = Some (Some t') \<and> trows t' = trows t \<and> tnext t' = tnext t"
  by (cases "d = nm") (simp_all add: bootstrapped_def)

lemma bootstrapped_keeps_db: "dbs s d \<noteq> None \<Longrightarrow> dbs (bootstrapped nm s) d \<noteq> None"
  by (simp add: bootstrapped_def)

subsection \<open>The insert statement\<close>

lemma users_table_last_id [simp]: "users_table (s\<lparr>last_id := n\<rparr>) = users_table s"
  by (simp add: users_table_def split: option.splits)

lemma users_table_cur: "users_table s = Inr (d, t) \<Longrightarrow> cur s = Some d"
  by (auto simp: users_table_def split: option.splits)

lemma users_table_put: "cur s = Some d \<Longrightarrow> users_table (put_table d t s) = Inr (d, t)"
  by (simp add: users_table_def)

lemma users_table_after_dml:
  "users_table s = Inr (d, t) \<Longrightarrow>
     users_table (after_dml s) = Inr (d, if autocommit s then t\<lparr>tsaved := trows t\<rparr> else t)"
  by (auto simp: users_table_def after_dml_def split: option.splits)

lemma insert_run:
  assumes nf: "fault (server w) = no_faults"
      and tbl: "users_table (server w) = Inr (d, t)"
      and fresh: "u_name u \<notin> rname ` set (trows t)"
      and len: "length (u_name u) \<le> 100"
      and room: "tnext t \<le> 2147483647"
  shows "\<exists>w'. insertUser mysql_driver u w = (Inr (tnext t), w')
           \<and> fault (server w') = no_faults
           \<and> (\<exists>t'. users_table (server w') = Inr (d, t')
                  \<and> trows t' = trows t @ [row_of (tnext t) u])"
proof -
  let ?t' = "t\<lparr>trows := trows t @ [row_of (tnext t) u], tnext := tnext t + 1\<rparr>"
  let ?s1 = "(put_table d ?t' ((server w)\<lparr>clock := Suc (Suc (clock (server w)))\<rparr>))\<lparr>last_id := tnext t\<rparr>"
  have c: "cur (server w) = Some d" using tbl by (rule users_table_cur)
  have t1: "users_table ?s1 = Inr (d, ?t')"
    using c by (simp add: users_table_put)
  have t2: "users_table (after_dml ?s1)
              = Inr (d, if autocommit ?s1 then ?t'\<lparr>tsaved := trows ?t'\<rparr> else ?t')"
    by (rule users_table_after_dml[OF t1])
  have run: "insertUser mysql_driver u w =
      (Inr (tnext t),
       w\<lparr>server := (after_dml ?s1)\<lparr>clock := Suc (Suc (Suc (Suc (clock (server w)))))\<rparr>,
         trace := trace w @ [PrepareStatement insert_sql,
                             PsExecuteUpdate insert_sql (ps_params (bind_user \<lparr>ps_sql = insert_sql, ps_params = Map.empty\<rparr> u)),
                             CreateStatement, ExecuteQuery last_insert_id_sql]\<rparr>)"
    using nf tbl fresh len room
    apply (simp add: insertUser_def conn_defs prog_defs guarded_no_faults mysql_prepare_def
      mysql_ps_executeUpdate_def mysql_executeQuery_def do_insert_def bind_user_params scalar_rs_def)
    apply (simp add: row_of_def)
    done
  show ?thesis
    unfolding run using nf t2 by (cases "autocommit (server w)") simp_all
qed

subsection \<open>Exceptions of the model are database errors\<close>

lemma no_std_simps [simp]: "no_std (Inr a)" "no_std (Inl e) = sql_exn e"
  by (simp_all add: no_std_def)

lemma sql_exn_simps [simp]:
  "sql_exn (SQLException x)" "\<not> sql_exn (StdException msg)" "sql_exn (sql_err m c st)"
  by (simp_all add: sql_exn_def sql_err_def)

lemma sql_exn_errors [simp]:
  "sql_exn ER_PARSE_ERROR" "sql_exn ER_NO_DB_ERROR" "sql_exn ER_BAD_DB_ERROR"
  "sql_exn ER_NO_SUCH_TABLE" "sql_exn ER_DUP_ENTRY" "sql_exn ER_BAD_NULL_ERROR"
  "sql_exn ER_DATA_TOO_LONG" "sql_exn ER_AUTOINC_READ_FAILED"
  "sql_exn ER_WRONG_DB_NAME" "sql_exn ER_TOO_LONG_IDENT" "sql_exn ER_WRONG_VALUE"
  "sql_exn CR_PARAMS_NOT_BOUND"
  by (simp_all add: ER_PARSE_ERROR_def ER_NO_DB_ERROR_def ER_BAD_DB_ERROR_def ER_NO_SUCH_TABLE_def
      ER_DUP_ENTRY_def ER_BAD_NULL_ERROR_def ER_DATA_TOO_LONG_def ER_AUTOINC_READ_FAILED_def
      ER_WRONG_DB_NAME_def ER_TOO_LONG_IDENT_def ER_WRONG_VALUE_def CR_PARAMS_NOT_BOUND_def)

lemma sql_exn_cases: "sql_exn e \<Longrightarrow> \<exists>x. e = SQLException x"
  by (cases e) simp_all

lemma users_table_no_std: "users_table s = Inl e \<Longrightarrow> sql_exn e"
  by (auto simp: users_table_def split: option.splits)

lemma text_arg_no_std: "text_arg p = Inl e \<Longrightarrow> sql_exn e"
  by (cases p rule: text_arg.cases) auto

lemma int_arg_no_std: "int_arg p = Inl e \<Longrightarrow> sql_exn e"
  by (cases p rule: int_arg.cases) auto

lemma sql_step_prepare: "sql_step (mysql_prepare sql)"
  by (auto simp: sql_step_def mysql_prepare_def users_table_no_std split: sum.splits)

lemma sql_step_do_insert: "sql_step (do_insert p1 p2)"
  by (auto simp: sql_step_def do_insert_def users_table_no_std text_arg_no_std int_arg_no_std
      split: sum.splits option.splits)

lemma sql_step_do_update: "sql_step (do_update p1 p2)"
  by (auto simp: sql_step_def do_update_def users_table_no_std text_arg_no_std int_arg_no_std
      split: sum.splits option.splits)

lemma sql_step_executeUpdate: "sql_step (mysql_ps_executeUpdate sql b)"
  using sql_step_do_insert sql_step_do_update
  by (auto simp: sql_step_def mysql_ps_executeUpdate_def)

lemma sql_step_setAutoCommit: "sql_step (mysql_setAutoCommit b)"
  by (simp add: sql_step_def mysql_setAutoCommit_def)

lemma sql_step_commit: "sql_step (\<lambda>s. (Inr (), commit_all s))"
  by (simp add: sql_step_def)

lemma sql_step_rollback: "sql_step (\<lambda>s. (Inr (), rollback_all s))"
  by (simp add: sql_step_def)

lemma guarded_refused:
  assumes "fault s (clock s) rq = Some e"
  shows "call rq (guarded rq f) w = (r, w') \<Longrightarrow> server w = s \<Longrightarrow>
           r = Inl e \<and> \<not> last_call_served w' \<and> fault (server w') = fault s"
  using assms by (auto simp: call_def guarded_def last_call_served_def)

lemma std_from_plan_call:
  assumes st: "sql_step f"
  shows "std_from_plan (call rq (guarded rq f))"
  unfolding std_from_plan_def
proof (intro allI)
  fix w :: "mysql world"
  let ?s = "server w"
  let ?c = "call rq (guarded rq f) w"
  show "fault (server (snd ?c)) = fault (server w)
        \<and> (\<forall>msg. fst ?c = Inl (StdException msg) \<longrightarrow> \<not> last_call_served (snd ?c))"
  proof (cases "fault ?s (clock ?s) rq")
    case None
    let ?s1 = "?s\<lparr>clock := Suc (clock ?s)\<rparr>"
    from None have g: "guarded rq f ?s = f ?s1"
      by (simp add: guarded_def)
    from st have "fault (snd (f ?s1)) = fault ?s1" "no_std (fst (f ?s1))"
      by (simp_all add: sql_step_def)
    with g show ?thesis
      by (auto simp: call_def split: prod.splits)
  next
    case (Some e)
    from guarded_refused[OF Some, of f w "fst ?c" "snd ?c"]
    show ?thesis by simp
  qed
qed

lemma std_from_plan_ret: "std_from_plan (ret a)"
  by (simp add: std_from_plan_def ret_def)

lemma std_from_plan_throw_sql: "std_from_plan (throw (SQLException e))"
  by (simp add: std_from_plan_def throw_def)

lemma std_from_plan_print: "std_from_plan (print_out txt)" "std_from_plan (print_err txt)"
  by (simp_all add: std_from_plan_def print_out_def print_err_def)

lemma std_from_plan_at:
  assumes "std_from_plan m"
  shows "fault (server (snd (m w))) = fault (server w)
         \<and> (\<forall>msg. fst (m w) = Inl (StdException msg) \<longrightarrow> \<not> last_call_served (snd (m w)))"
  using assms unfolding std_from_plan_def by (rule spec)

lemma std_from_planD:
  assumes "std_from_plan m" and "m w = (r, w')"
  shows "fault (server w') = fault (server w)"
    and "r = Inl (StdException msg) \<Longrightarrow> \<not> last_call_served w'"
  using std_from_plan_at[OF assms(1), of w] assms(2) by simp_all

lemma std_from_plan_bindE:
  assumes m: "std_from_plan m" and f: "\<And>a. std_from_plan (f a)"
  shows "std_from_plan (bindE m f)"
  unfolding std_from_plan_def
proof (intro allI)
  fix w :: "mysql world"
  obtain r w1 where r: "m w = (r, w1)" by (cases "m w")
  note m1 = std_from_planD[OF m r]
  show "fault (server (snd (bindE m f w))) = fault (server w)
        \<and> (\<forall>msg. fst (bindE m f w) = Inl (StdException msg)
               \<longrightarrow> \<not> last_call_served (snd (bindE m f w)))"
  proof (cases r)
    case (Inl e)
    with r m1 show ?thesis by (simp add: bindE_def)
  next
    case (Inr a)
    with r have "bindE m f w = f a w1" by (simp add: bindE_def)
    with std_from_plan_at[OF f[of a], of w1] m1(1)
    show ?thesis by simp
  qed
qed

lemma std_from_plan_try_catch_sql:
  assumes m: "std_from_plan m" and h: "\<And>e. std_from_plan (h e)"
  shows "std_from_plan (try_catch_sql m h)"
  unfolding std_from_plan_def
proof (intro allI)
  fix w :: "mysql world"
  obtain r w1 where r: "m w = (r, w1)" by (cases "m w")
  note m1 = std_from_planD[OF m r]
  show "fault (server (snd (try_catch_sql m h w))) = fault (server w)
        \<and> (\<forall>msg. fst (try_catch_sql m h w) = Inl (StdException msg)
               \<longrightarrow> \<not> last_call_served (snd (try_catch_sql m h w)))"
  proof (cases r)
    case (Inr a)
    with r m1 show ?thesis by (simp add: try_catch_sql_def)
  next
    case (Inl x)
    show ?thesis
    proof (cases x)
      case (StdException msg)
      with Inl r m1 show ?thesis by (simp add: try_catch_sql_def)
    next
      case (SQLException e)
      with Inl r have "try_catch_sql m h w = h e w1" by (simp add: try_catch_sql_def)
      with std_from_plan_at[OF h[of e], of w1] m1(1)
      show ?thesis by simp
    qed
  qed
qed

lemma std_from_plan_connector:
  "std_from_plan (setAutoCommit mysql_driver b)"
  "std_from_plan (prepareStatement mysql_driver sql)"
  "std_from_plan (ps_executeUpdate mysql_driver ps)"
  "std_from_plan (commit mysql_driver)"
  "std_from_plan (rollback mysql_driver)"
  unfolding conn_defs mysql_driver_simps
  by (intro std_from_plan_bindE std_from_plan_call std_from_plan_ret sql_step_prepare
      sql_step_executeUpdate sql_step_setAutoCommit sql_step_commit sql_step_rollback)+

lemma std_from_plan_loop: "std_from_plan (insertUsersBulk_loop mysql_driver ps us)"
proof (induction us arbitrary: ps)
  case Nil
  show ?case by (simp add: std_from_plan_ret)
next
  case (Cons u us)
  show ?case
    unfolding insertUsersBulk_loop.simps
    by (intro std_from_plan_bindE std_from_plan_connector Cons.IH)
qed

lemma std_from_plan_demo_try: "std_from_plan (demo_try mysql_driver)"
  unfolding demo_try_def insertUsersBulk_def updateUserAgeByName_def
  by (intro std_from_plan_bindE std_from_plan_connector std_from_plan_loop std_from_plan_print)

subsection \<open>The parts of \<^verbatim>\<open>demoTransaction\<close>\<close>

lemma bindE_Inr_elim:
  assumes "bindE m f w = (Inr b, w')"
  obtains a w1 where "m w = (Inr a, w1)" "f a w1 = (Inr b, w')"
  using assms by (auto simp: bindE_def split: prod.splits sum.splits)

lemma std_from_plan_demo_rollback: "std_from_plan (demo_rollback mysql_driver)"
  unfolding demo_rollback_def printSqlError_def
  by (intro std_from_plan_try_catch_sql std_from_plan_bindE std_from_plan_connector
      std_from_plan_print)

lemma demo_rollback_result:
  "fst (demo_rollback drv w) = Inr () \<or> (\<exists>msg. fst (demo_rollback drv w) = Inl (StdException msg))"
  by (auto simp: demo_rollback_def try_catch_sql_def printSqlError_def print_err_def bindE_def
      split: prod.splits sum.splits exn.splits)

lemma setAutoCommit_run:
  assumes "setAutoCommit mysql_driver b w = (r, w')"
  shows "trace w' = trace w @ [SetAutoCommit b]"
    and "r = Inr () \<and> autocommit (server w') = b \<or> (\<exists>x. r = Inl x) \<and> \<not> last_call_served w'"
    and "cerr w' = cerr w"
  using assms
  by (auto simp: setAutoCommit_def call_def guarded_def mysql_setAutoCommit_def mysql_driver_simps
      last_call_served_def split: option.splits)

lemma demo_try_Inr:
  assumes "demo_try mysql_driver w = (Inr (), w')"
  shows "autocommit (server w')" and "last (trace w') = SetAutoCommit True"
proof -
  from assms obtain w4 w5 where on: "setAutoCommit mysql_driver True w4 = (Inr (), w5)"
    and pr: "print_out (''Transaction committed.'' @ nl) w5 = (Inr (), w')"
    unfolding demo_try_def by (elim bindE_Inr_elim) auto
  from setAutoCommit_run[OF on] pr
  show "autocommit (server w')" and "last (trace w') = SetAutoCommit True"
    by (auto simp: print_out_def)
qed

subsection \<open>A run of \<^verbatim>\<open>main\<close> against a working session\<close>

lemma testdb_ok: "schema_name_ok ''testdb''"
  by (simp add: schema_name_ok_def backtick_def)

lemma main_run:
  assumes nf: "fault (server mw) = no_faults" and room: "room_for_three (server mw)"
  shows "fst (main mysql_driver mw) = 0 \<and> cerr (snd (main mysql_driver mw)) = cerr mw"
proof (cases "dbs (server mw) ''testdb''")
  case None
  with nf show ?thesis
    by (simp add: main_defs conn_defs prog_defs mysql_defs ensure_run testdb_ok bootstrapped_def
      empty_table_def bind_user_def)
next
  case (Some db)
  show ?thesis
  proof (cases db)
    case None
    with Some nf show ?thesis
      by (simp add: main_defs conn_defs prog_defs mysql_defs ensure_run testdb_ok bootstrapped_def
        empty_table_def bind_user_def)
  next
    case (Some t)
    with \<open>dbs (server mw) ''testdb'' = Some db\<close> room have "tnext t \<le> 2147483645"
      by (simp add: room_for_three_def)
    with Some \<open>dbs (server mw) ''testdb'' = Some db\<close> nf show ?thesis
      by (simp add: main_defs conn_defs prog_defs mysql_defs ensure_run testdb_ok bootstrapped_def
        empty_table_def bind_user_def)
  qed
qed

subsection \<open>Every call keeps the tables well-formed\<close>

lemma ids_below_simps [simp]:
  "ids_below n []" "ids_below n (r # rows) = (0 < rid r \<and> rid r < n \<and> ids_below n rows)"
  "ids_below n (xs @ ys) = (ids_below n xs \<and> ids_below n ys)"
  by (simp_all add: ids_below_def)

lemma ids_below_mono: "ids_below n rows \<Longrightarrow> n \<le> m \<Longrightarrow> ids_below m rows"
  by (induction rows) auto

lemma ids_below_update [simp]:
  "ids_below n (map (\<lambda>r. if P r then r\<lparr>rage := a\<rparr> else r) rows) = ids_below n rows"
  by (induction rows) auto

lemma ids_below_fresh: "ids_below n rows \<Longrightarrow> n \<notin> rid ` set rows"
  by (induction rows) auto

lemma table_ok_empty [simp]: "table_ok empty_table"
  by (simp add: table_ok_def empty_table_def)

lemma table_ok_commit: "table_ok t \<Longrightarrow> table_ok (t\<lparr>tsaved := trows t\<rparr>)"
  by (simp add: table_ok_def)

lemma table_ok_rollback: "table_ok t \<Longrightarrow> table_ok (t\<lparr>trows := tsaved t\<rparr>)"
  by (simp add: table_ok_def)

lemma tables_ok_map:
  assumes "\<And>t. table_ok t \<Longrightarrow> table_ok (f t)" and "tables_ok s"
  shows "tables_ok (map_tables f s)"
  using assms by (auto simp: tables_ok_def)

lemma tables_ok_commit_all: "tables_ok s \<Longrightarrow> tables_ok (commit_all s)"
  unfolding commit_all_def by (rule tables_ok_map) (simp_all add: table_ok_commit)

lemma tables_ok_rollback_all: "tables_ok s \<Longrightarrow> tables_ok (rollback_all s)"
  unfolding rollback_all_def by (rule tables_ok_map) (simp_all add: table_ok_rollback)

lemma tables_ok_after_dml: "tables_ok s \<Longrightarrow> tables_ok (after_dml s)"
  by (simp add: after_dml_def tables_ok_commit_all)

lemma tables_ok_put: "tables_ok s \<Longrightarrow> table_ok t \<Longrightarrow> tables_ok (put_table d t s)"
  by (simp add: tables_ok_def)

lemma tables_ok_fields [simp]:
  "tables_ok (s\<lparr>clock := n\<rparr>) = tables_ok s" "tables_ok (s\<lparr>last_id := i\<rparr>) = tables_ok s"
  "tables_ok (s\<lparr>cur := c\<rparr>) = tables_ok s" "tables_ok (s\<lparr>autocommit := b\<rparr>) = tables_ok s"
  by (simp_all add: tables_ok_def)

lemma users_table_ok: "tables_ok s \<Longrightarrow> users_table s = Inr (d, t) \<Longrightarrow> table_ok t"
  by (auto simp: tables_ok_def users_table_def split: option.splits)

lemma keeps_guarded: "keeps_tables_ok f \<Longrightarrow> keeps_tables_ok (guarded rq f)"
  by (auto simp: keeps_tables_ok_def guarded_def split: option.splits)

lemma keeps_do_insert: "keeps_tables_ok (do_insert p1 p2)"
  unfolding keeps_tables_ok_def
proof (intro allI impI)
  fix s assume ok: "tables_ok s"
  show "tables_ok (snd (do_insert p1 p2 s))"
  proof (cases "users_table s")
    case (Inl e)
    with ok show ?thesis by (simp add: do_insert_def)
  next
    case (Inr dt)
    obtain d t where dt: "dt = (d, t)" by (cases dt)
    with Inr ok have t: "table_ok t" by (auto dest: users_table_ok)
    then have "\<And>nm a. table_ok (t\<lparr>trows := trows t @ [\<lparr>rid = tnext t, rname = nm, rage = a\<rparr>],
                              tnext := tnext t + 1\<rparr>)"
      by (auto simp: table_ok_def intro: ids_below_mono)
    with ok Inr dt show ?thesis
      by (auto simp: do_insert_def tables_ok_after_dml tables_ok_put
          split: sum.splits option.splits)
  qed
qed

lemma keeps_do_update: "keeps_tables_ok (do_update p1 p2)"
  unfolding keeps_tables_ok_def
proof (intro allI impI)
  fix s assume ok: "tables_ok s"
  show "tables_ok (snd (do_update p1 p2 s))"
  proof (cases "users_table s")
    case (Inl e)
    with ok show ?thesis by (simp add: do_update_def)
  next
    case (Inr dt)
    obtain d t where dt: "dt = (d, t)" by (cases dt)
    with Inr ok have t: "table_ok t" by (auto dest: users_table_ok)
    then have "\<And>P a. table_ok (t\<lparr>trows := map (\<lambda>r. if P r then r\<lparr>rage := a\<rparr> else r) (trows t)\<rparr>)"
      by (simp add: table_ok_def)
    with ok Inr dt show ?thesis
      by (auto simp: do_update_def tables_ok_after_dml tables_ok_put
          split: sum.splits option.splits)
  qed
qed

lemma keeps_delete_all: "keeps_tables_ok delete_all"
  unfolding keeps_tables_ok_def
proof (intro allI impI)
  fix s assume ok: "tables_ok s"
  show "tables_ok (snd (delete_all s))"
  proof (cases "users_table s")
    case (Inl e)
    with ok show ?thesis by (simp add: delete_all_def)
  next
    case (Inr dt)
    obtain d t where dt: "dt = (d, t)" by (cases dt)
    with Inr ok have t: "table_ok t" by (auto dest: users_table_ok)
    then have "table_ok (t\<lparr>trows := []\<rparr>)"
      by (simp add: table_ok_def)
    with ok Inr dt show ?thesis
      by (simp add: delete_all_def tables_ok_after_dml tables_ok_put)
  qed
qed

lemma keeps_create_database: "keeps_tables_ok (create_database nm)"
  by (auto simp: keeps_tables_ok_def create_database_def intro!: tables_ok_commit_all)
     (auto simp: tables_ok_def)

lemma keeps_create_users_table: "keeps_tables_ok create_users_table"
  by (auto simp: keeps_tables_ok_def create_users_table_def split: option.splits
      intro!: tables_ok_commit_all)
     (auto simp: tables_ok_def)

lemma keeps_mysql_execute: "keeps_tables_ok (mysql_execute sql)"
  using keeps_create_database keeps_create_users_table keeps_delete_all
  by (auto simp: keeps_tables_ok_def mysql_execute_def split: option.splits)

lemma keeps_queries:
  "keeps_tables_ok (mysql_executeQuery sql)" "keeps_tables_ok (mysql_ps_executeQuery sql b)"
  "keeps_tables_ok (mysql_prepare sql)" "keeps_tables_ok (mysql_setSchema nm)"
  by (auto simp: keeps_tables_ok_def mysql_executeQuery_def mysql_ps_executeQuery_def
      mysql_prepare_def mysql_setSchema_def do_select_def do_select_all_def
      split: sum.splits option.splits)

lemma keeps_ps_executeUpdate: "keeps_tables_ok (mysql_ps_executeUpdate sql b)"
  using keeps_do_insert keeps_do_update
  by (auto simp: keeps_tables_ok_def mysql_ps_executeUpdate_def)

lemma keeps_session:
  "keeps_tables_ok mysql_connect" "keeps_tables_ok (mysql_setAutoCommit b)"
  "keeps_tables_ok (\<lambda>s. (Inr (), commit_all s))" "keeps_tables_ok (\<lambda>s. (Inr (), rollback_all s))"
  "keeps_tables_ok (\<lambda>s. (Inr (), s))"
  by (auto simp: keeps_tables_ok_def mysql_connect_def mysql_setAutoCommit_def
      tables_ok_commit_all tables_ok_rollback_all)

lemma tables_ok_fresh_server: "tables_ok fresh_server"
  by (simp add: tables_ok_def fresh_server_def)

lemma mysql_driver_keeps_tables_ok:
  "keeps_tables_ok (d_get_driver_instance mysql_driver)"
  "keeps_tables_ok (d_connect mysql_driver h u p)"
  "keeps_tables_ok (d_createStatement mysql_driver)"
  "keeps_tables_ok (d_execute mysql_driver sql)"
  "keeps_tables_ok (d_executeQuery mysql_driver sql)"
  "keeps_tables_ok (d_setSchema mysql_driver nm)"
  "keeps_tables_ok (d_prepareStatement mysql_driver sql)"
  "keeps_tables_ok (d_ps_executeUpdate mysql_driver sql b)"
  "keeps_tables_ok (d_ps_executeQuery mysql_driver sql b)"
  "keeps_tables_ok (d_setAutoCommit mysql_driver ac)"
  "keeps_tables_ok (d_commit mysql_driver)"
  "keeps_tables_ok (d_rollback mysql_driver)"
  "tables_ok s \<Longrightarrow> tables_ok (d_close mysql_driver s)"
  by (simp_all add: keeps_guarded keeps_mysql_execute keeps_queries keeps_ps_executeUpdate
      keeps_session tables_ok_rollback_all)

section \<open>The claims\<close>

subsection \<open>C1: autocommit is restored\<close>

text \<open>
  Claim C1 says that autocommit is enabled again on every path on which \<^verbatim>\<open>demoTransaction\<close>
  ends.  The function restores it by a call of its own, \<^verbatim>\<open>setAutoCommit(true)\<close>, which can fail
  like any other call.  On a connection that is lost during the commit and gone afterwards,
  the commit raises a database error in the body, the rollback and \<^verbatim>\<open>setAutoCommit(true)\<close> raise
  in the handler, the error of the last one leaves the function, and autocommit, which was
  on before the call, is off.  It is off as well after a run in which the rollback raises an
  exception other than \<^verbatim>\<open>sql::SQLException\<close>, which the inner handler does not catch: the
  function ends there, before \<^verbatim>\<open>setAutoCommit(true)\<close>.
\<close>

theorem demoTransaction_autocommit_left_off_counterexample:
  "autocommit (server dead_world)
   \<and> fst (demo_try mysql_driver (snd (setAutoCommit mysql_driver False dead_world)))
       = Inl (SQLException lost_connection)
   \<and> fst (demoTransaction mysql_driver dead_world) = Inl (SQLException server_gone)
   \<and> \<not> autocommit (server (snd (demoTransaction mysql_driver dead_world)))
   \<and> autocommit (server starved_world)
   \<and> fst (demo_try mysql_driver (snd (setAutoCommit mysql_driver False starved_world)))
       = Inl (SQLException lost_connection)
   \<and> fst (demoTransaction mysql_driver starved_world) = Inl (StdException ''std::bad_alloc'')
   \<and> \<not> autocommit (server (snd (demoTransaction mysql_driver starved_world)))"
  by (simp add: demo_defs conn_defs prog_defs mysql_defs dead_world_def starved_world_def
      world_of_def server_with_def lost_from_def bad_alloc_on_rollback_def)

text \<open>
  Claim C1, amended.  For every state of the session and every plan of failures: when the last
  call that \<^verbatim>\<open>demoTransaction\<close> makes is not refused, that call is \<^verbatim>\<open>setAutoCommit(true)\<close>, the
  function returns normally or raises a database error, and autocommit is enabled when it
  does; whether all body calls succeed, or a body call raises a database error, by the plan
  or by SQL, and whether or not the rollback then raises one too.
\<close>

theorem demoTransaction_restores_autocommit:
  assumes run: "demoTransaction mysql_driver w = (r, w')"
      and served: "last_call_served w'"
  shows "autocommit (server w')
       \<and> (r = Inr () \<or> (\<exists>e. r = Inl (SQLException e)))
       \<and> last (trace w') = SetAutoCommit True"
proof -
  obtain r1 w1 where off: "setAutoCommit mysql_driver False w = (r1, w1)"
    by (cases "setAutoCommit mysql_driver False w")
  show ?thesis
  proof (cases r1)
    case (Inl x)
    with off run have "w' = w1" by (simp add: demoTransaction_def bindE_def)
    with setAutoCommit_run(2)[OF off] Inl served show ?thesis by simp
  next
    case (Inr u)
    with off have dt: "demoTransaction mysql_driver w
                         = try_catch_sql (demo_try mysql_driver) (demo_catch mysql_driver) w1"
      by (simp add: demoTransaction_def bindE_def)
    obtain r2 w2 where body: "demo_try mysql_driver w1 = (r2, w2)"
      by (cases "demo_try mysql_driver w1")
    show ?thesis
    proof (cases r2)
      case (Inr u2)
      with body run dt have "r = Inr ()" "w' = w2" by (simp_all add: try_catch_sql_def)
      with demo_try_Inr[of w1 w2] body Inr show ?thesis by simp
    next
      case (Inl x)
      show ?thesis
      proof (cases x)
        case (StdException msg)
        with Inl body run dt have "w' = w2" by (simp add: try_catch_sql_def)
        with std_from_planD(2)[OF std_from_plan_demo_try body] Inl StdException served
        show ?thesis by simp
      next
        case (SQLException e)
        let ?w3 = "w2\<lparr>cerr := cerr w2 @ sql_error_line e ''demoTransaction''\<rparr>"
        obtain r4 w4 where rb: "demo_rollback mysql_driver ?w3 = (r4, w4)"
          by (cases "demo_rollback mysql_driver ?w3")
        obtain r5 w5 where on: "setAutoCommit mysql_driver True w4 = (r5, w5)"
          by (cases "setAutoCommit mysql_driver True w4")
        from SQLException Inl body dt
        have dc: "demoTransaction mysql_driver w = demo_catch mysql_driver e w2"
          by (simp add: try_catch_sql_def)
        show ?thesis
        proof (cases r4)
          case (Inl y)
          with demo_rollback_result[of mysql_driver ?w3] rb obtain msg where y: "y = StdException msg"
            by auto
          from Inl rb run dc have "w' = w4"
            by (simp add: demo_catch_def bindE_def printSqlError_def print_err_def)
          with std_from_planD(2)[OF std_from_plan_demo_rollback rb] Inl y served
          show ?thesis by simp
        next
          case (Inr u4)
          show ?thesis
          proof (cases r5)
            case (Inl z)
            with Inr rb on run dc have "w' = w5"
              by (simp add: demo_catch_def bindE_def printSqlError_def print_err_def)
            with setAutoCommit_run(2)[OF on] Inl served show ?thesis by simp
          next
            case (Inr u5)
            with \<open>r4 = Inr u4\<close> rb on run dc have "r = Inl (SQLException e)" "w' = w5"
              by (simp_all add: demo_catch_def bindE_def printSqlError_def print_err_def throw_def)
            with setAutoCommit_run(1,2)[OF on] Inr show ?thesis by simp
          qed
        qed
      qed
    qed
  qed
qed

text \<open>
  Instances.  The commit fails, and then the rollback fails too.  A run that ends well
  although a \<^verbatim>\<open>setAutoCommit\<close> fails: the one of the body is lost, the handler rolls back and
  calls it again.  In both the error of the body is raised and autocommit is on.  And a run
  in which nothing fails.
\<close>

theorem demoTransaction_restores_autocommit_witness:
  "autocommit (server (snd (demoTransaction mysql_driver flaky_world)))
   \<and> fst (demoTransaction mysql_driver flaky_world) = Inl (SQLException lost_connection)
   \<and> drop 6 (trace (snd (demoTransaction mysql_driver flaky_world)))
       = [Commit, Rollback, SetAutoCommit True]
   \<and> autocommit (server (snd (demoTransaction mysql_driver hiccup_world)))
   \<and> fst (demoTransaction mysql_driver hiccup_world) = Inl (SQLException lost_connection)
   \<and> drop 6 (trace (snd (demoTransaction mysql_driver hiccup_world)))
       = [Commit, SetAutoCommit True, Rollback, SetAutoCommit True]
   \<and> autocommit (server (snd (demoTransaction mysql_driver (world_of (server_with [] 1)))))
   \<and> fst (demoTransaction mysql_driver (world_of (server_with [] 1))) = Inr ()"
proof -
  let ?a = "demoTransaction mysql_driver flaky_world"
  let ?b = "demoTransaction mysql_driver hiccup_world"
  let ?c = "demoTransaction mysql_driver (world_of (server_with [] 1))"
  have sc: "last_call_served (snd ?c)"
    by (simp add: last_call_served_def demo_defs conn_defs prog_defs mysql_defs
        world_of_def server_with_def)
  have rc: "fst ?c = Inr ()"
    by (simp add: demo_defs conn_defs prog_defs mysql_defs world_of_def server_with_def)
  have sa: "last_call_served (snd ?a)"
    by (simp add: last_call_served_def demo_defs conn_defs prog_defs mysql_defs flaky_world_def
        world_of_def server_with_def failing_commit_and_rollback_def)
  have ra: "fst ?a = Inl (SQLException lost_connection)"
    by (simp add: demo_defs conn_defs prog_defs mysql_defs flaky_world_def
        world_of_def server_with_def failing_commit_and_rollback_def)
  have sb: "last_call_served (snd ?b)"
    by (simp add: last_call_served_def demo_defs conn_defs prog_defs mysql_defs hiccup_world_def
        world_of_def server_with_def lost_only_at_def)
  have rb: "fst ?b = Inl (SQLException lost_connection)"
    by (simp add: demo_defs conn_defs prog_defs mysql_defs hiccup_world_def
        world_of_def server_with_def lost_only_at_def)
  have ta: "drop 6 (trace (snd ?a)) = [Commit, Rollback, SetAutoCommit True]"
    by (simp add: demo_defs conn_defs prog_defs mysql_defs flaky_world_def
        world_of_def server_with_def failing_commit_and_rollback_def)
  have tb: "drop 6 (trace (snd ?b)) = [Commit, SetAutoCommit True, Rollback, SetAutoCommit True]"
    by (simp add: demo_defs conn_defs prog_defs mysql_defs hiccup_world_def
        world_of_def server_with_def lost_only_at_def)
  from demoTransaction_restores_autocommit[OF surjective_pairing sa]
    demoTransaction_restores_autocommit[OF surjective_pairing sb]
    demoTransaction_restores_autocommit[OF surjective_pairing sc] ra rb rc ta tb
  show ?thesis by simp
qed


subsection \<open>C2: insert, then read back\<close>

text \<open>
  Claim C2 says that a record inserted by \<^verbatim>\<open>insertUser\<close> comes back from
  \<^verbatim>\<open>getUsersByMinAge(0)\<close> with its name and age, the record with the age 0 included.  A
  record with the age 0 is stored with the age \<^verbatim>\<open>NULL\<close>, and \<^verbatim>\<open>WHERE age >= 0\<close> does not select
  a row whose age is \<^verbatim>\<open>NULL\<close>: inserted into an empty table, dave (age 0) gets the identifier 1
  and the read returns nothing.  Nor does it return erin, whose age is negative.
\<close>

theorem insertUser_age_omitted_roundtrip_counterexample:
  "fst (insert_then_select mysql_driver dave (world_of (server_with [] 1))) = Inr (1, [])
   \<and> fst (insert_then_select mysql_driver erin (world_of (server_with [] 1))) = Inr (1, [])"
  by (simp add: insert_then_select_def insertUser_def getUsersByMinAge_def conn_defs prog_defs
      mysql_defs world_of_def server_with_def bind_user_def dave_def erin_def age_at_least_def
      scalar_rs_def)

text \<open>
  Claim C2, amended.  On a session where nothing is made to fail, with well-formed tables:
  for every record whose name is not in the table and is at most 100 long, and whose age is
  positive, when the counter is not used up, \<^verbatim>\<open>insertUser\<close> followed by
  \<^verbatim>\<open>getUsersByMinAge(0)\<close> returns a record with the same name and the same age and with the
  identifier that \<^verbatim>\<open>insertUser\<close> returned, which is positive and is the identifier of no row
  that was there before.
\<close>

theorem insertUser_then_getUsersByMinAge_roundtrip:
  assumes nf: "fault (server w) = no_faults"
      and tbl: "users_table (server w) = Inr (d, t)"
      and ok: "tables_ok (server w)"
      and fresh: "u_name u \<notin> rname ` set (trows t)"
      and len: "length (u_name u) \<le> 100"
      and room: "tnext t \<le> 2147483647"
      and pos: "0 < u_age u"
  shows "\<exists>newId us w'. insert_then_select mysql_driver u w = (Inr (newId, us), w')
           \<and> \<lparr>u_id = newId, u_name = u_name u, u_age = u_age u\<rparr> \<in> set us
           \<and> 0 < newId \<and> newId \<notin> rid ` set (trows t)"
proof -
  from insert_run[OF nf tbl fresh len room]
  obtain w1 t1 where ins: "insertUser mysql_driver u w = (Inr (tnext t), w1)"
    and nf1: "fault (server w1) = no_faults"
    and tbl1: "users_table (server w1) = Inr (d, t1)"
    and rows1: "trows t1 = trows t @ [row_of (tnext t) u]"
    by blast
  let ?sel = "getUsersByMinAge mysql_driver 0 w1"
  let ?us = "map user_of (sort_key order_key (filter (age_at_least 0) (trows t1)))"
  have sel: "fst ?sel = Inr ?us"
    by (rule select_run[OF nf1 tbl1])
  have run: "insert_then_select mysql_driver u w = (Inr (tnext t, ?us), snd ?sel)"
    using ins sel by (cases ?sel) (simp add: insert_then_select_def bindE_def ret_def)
  have "age_at_least 0 (row_of (tnext t) u)"
    using pos by (simp add: age_at_least_def row_of_def)
  then have "row_of (tnext t) u \<in> set (sort_key order_key (filter (age_at_least 0) (trows t1)))"
    by (simp add: rows1)
  then have "user_of (row_of (tnext t) u) \<in> set ?us"
    by (simp del: set_sort set_filter)
  moreover have "user_of (row_of (tnext t) u) = \<lparr>u_id = tnext t, u_name = u_name u, u_age = u_age u\<rparr>"
    using pos by (simp add: user_of_def row_of_def age_or_0_def)
  ultimately have mem: "\<lparr>u_id = tnext t, u_name = u_name u, u_age = u_age u\<rparr> \<in> set ?us"
    by simp
  from users_table_ok[OF ok tbl] have p: "0 < tnext t" and f: "tnext t \<notin> rid ` set (trows t)"
    by (auto simp: table_ok_def dest: ids_below_fresh)
  show ?thesis
    by (intro exI[of _ "tnext t"] exI[of _ ?us] exI[of _ "snd ?sel"] conjI run mem p f)
qed

text \<open>An instance: carol, inserted next to bob.\<close>

theorem insertUser_then_getUsersByMinAge_roundtrip_witness:
  "\<exists>us w'. insert_then_select mysql_driver carol (world_of (server_with [bob_31] 2))
               = (Inr (2, us), w')
     \<and> \<lparr>u_id = 2, u_name = ''carol'', u_age = 32\<rparr> \<in> set us"
proof -
  let ?w = "world_of (server_with [bob_31] 2)"
  let ?t = "\<lparr>trows = [bob_31], tsaved = [bob_31], tnext = 2\<rparr>"
  have nf: "fault (server ?w) = no_faults" and tbl: "users_table (server ?w) = Inr (''testdb'', ?t)"
    by simp_all
  have ok: "tables_ok (server ?w)"
    by (simp add: tables_ok_def table_ok_def world_of_def server_with_def bob_31_def)
  have fresh: "u_name carol \<notin> rname ` set (trows ?t)"
    and len: "length (u_name carol) \<le> 100" and room: "tnext ?t \<le> 2147483647"
    and pos: "0 < u_age carol"
    by (simp_all add: bob_31_def carol_def)
  from insertUser_then_getUsersByMinAge_roundtrip[OF nf tbl ok fresh len room pos]
  obtain newId us w' where r: "insert_then_select mysql_driver carol ?w = (Inr (newId, us), w')"
    "\<lparr>u_id = newId, u_name = u_name carol, u_age = u_age carol\<rparr> \<in> set us"
    by blast
  have "fst (insert_then_select mysql_driver carol ?w) = Inr (2, snd (projr (fst (insert_then_select mysql_driver carol ?w))))"
    by (simp add: insert_then_select_def insertUser_def getUsersByMinAge_def conn_defs prog_defs
      mysql_defs world_of_def server_with_def bind_user_def carol_def bob_31_def scalar_rs_def)
  with r(1) have "newId = 2" by simp
  with r show ?thesis by (intro exI[of _ us] exI[of _ w']) (simp add: carol_def)
qed

subsection \<open>C3: the handler of \<^verbatim>\<open>demoTransaction\<close>\<close>

text \<open>
  Claim C3 says that after a database error in the body the rollback is sent, a failure of
  the rollback is printed and does not replace the original error, autocommit is re-enabled,
  and the original error is raised again.  Two runs, each with a commit that raises a
  database error, show otherwise.  On a connection that is gone after the commit, the
  handler's \<^verbatim>\<open>setAutoCommit(true)\<close> raises: its error leaves the function, not the error of the
  commit, and autocommit stays off.  And a rollback that raises an exception other than
  \<^verbatim>\<open>sql::SQLException\<close> is not caught by the inner handler, which names that type: nothing
  is printed for it, \<^verbatim>\<open>setAutoCommit(true)\<close> is not called, and that exception replaces the
  original error.
\<close>

theorem demoTransaction_error_replaced_counterexample:
  "fst (demo_try mysql_driver (snd (setAutoCommit mysql_driver False dead_world)))
     = Inl (SQLException lost_connection)
   \<and> fst (demoTransaction mysql_driver dead_world) = Inl (SQLException server_gone)
   \<and> server_gone \<noteq> lost_connection
   \<and> \<not> autocommit (server (snd (demoTransaction mysql_driver dead_world)))
   \<and> fst (demo_try mysql_driver (snd (setAutoCommit mysql_driver False starved_world)))
       = Inl (SQLException lost_connection)
   \<and> fst (demoTransaction mysql_driver starved_world) = Inl (StdException ''std::bad_alloc'')
   \<and> cerr (snd (demoTransaction mysql_driver starved_world))
       = ''[SQL ERROR @ demoTransaction] Lost connection to MySQL server during query''
           @ '' | MySQL error code: 2013 | SQLState: HY000'' @ nl
   \<and> last (trace (snd (demoTransaction mysql_driver starved_world))) = Rollback
   \<and> \<not> autocommit (server (snd (demoTransaction mysql_driver starved_world)))"
  by (simp add: demo_defs conn_defs prog_defs mysql_defs dead_world_def starved_world_def
      world_of_def server_with_def lost_from_def bad_alloc_on_rollback_def
      server_gone_def lost_connection_def sql_error_line_def show_int_def show_nat.simps)

text \<open>
  Claim C3, amended.  For every driver: when autocommit has been switched off and the body of
  the \<^verbatim>\<open>try\<close> block ends with a database error \<open>e\<close>, the coordinator prints \<open>e\<close> and sends a
  rollback.  When the rollback returns, or raises a database error \<open>e2\<close>, the coordinator prints
  that the transaction was rolled back, or a line of its own for \<open>e2\<close>, and then sends
  \<^verbatim>\<open>setAutoCommit(true)\<close>; when that call succeeds, the error raised to the caller is \<open>e\<close>, the
  original one.  When the rollback raises any other exception, the function ends there, with
  that exception.
\<close>

theorem demoTransaction_rolls_back_and_rethrows:
  fixes drv :: "'s driver"
  assumes off: "d_setAutoCommit drv False (server w) = (Inr (), s0)"
      and body: "demo_try drv (w\<lparr>server := s0, trace := trace w @ [SetAutoCommit False]\<rparr>)
                   = (Inl (SQLException e), w2)"
  shows "(d_rollback drv (server w2) = (Inr (), s3) \<longrightarrow>
            snd (demoTransaction drv w) =
              w2\<lparr>server := snd (d_setAutoCommit drv True s3),
                 trace := trace w2 @ [Rollback, SetAutoCommit True],
                 cerr := cerr w2 @ sql_error_line e ''demoTransaction''
                           @ ''Transaction rolled back.'' @ nl\<rparr>
            \<and> (fst (d_setAutoCommit drv True s3) = Inr () \<longrightarrow>
                 fst (demoTransaction drv w) = Inl (SQLException e)))
       \<and> (d_rollback drv (server w2) = (Inl (SQLException e2), s3) \<longrightarrow>
            snd (demoTransaction drv w) =
              w2\<lparr>server := snd (d_setAutoCommit drv True s3),
                 trace := trace w2 @ [Rollback, SetAutoCommit True],
                 cerr := cerr w2 @ sql_error_line e ''demoTransaction''
                           @ sql_error_line e2 ''rollback''\<rparr>
            \<and> (fst (d_setAutoCommit drv True s3) = Inr () \<longrightarrow>
                 fst (demoTransaction drv w) = Inl (SQLException e)))
       \<and> (d_rollback drv (server w2) = (Inl (StdException msg), s3) \<longrightarrow>
            demoTransaction drv w =
              (Inl (StdException msg),
               w2\<lparr>server := s3, trace := trace w2 @ [Rollback],
                  cerr := cerr w2 @ sql_error_line e ''demoTransaction''\<rparr>))"
proof -
  have dt: "demoTransaction drv w = demo_catch drv e w2"
    using off body
    by (simp add: demoTransaction_def setAutoCommit_def call_def bindE_def try_catch_sql_def)
  obtain r5 s5 where on: "d_setAutoCommit drv True s3 = (r5, s5)"
    by (cases "d_setAutoCommit drv True s3")
  show ?thesis
    unfolding dt using on
    by (cases r5)
       (simp_all add: demo_catch_def demo_rollback_def printSqlError_def conn_defs prog_defs)
qed

text \<open>
  Instances, against the model of the session.  The commit is lost, then the rollback: both
  lines are printed, the two requests follow the seven of the body, and the error of the
  commit is raised.  And the \<^verbatim>\<open>setAutoCommit(true)\<close> of the body is lost: the rollback
  succeeds, the handler sends \<^verbatim>\<open>setAutoCommit(true)\<close> again, and the error of the first one is
  raised.  In both, autocommit is on at the end.
\<close>

theorem demoTransaction_rolls_back_and_rethrows_witness:
  "fst (demoTransaction mysql_driver flaky_world) = Inl (SQLException lost_connection)
   \<and> cerr (snd (demoTransaction mysql_driver flaky_world))
       = ''[SQL ERROR @ demoTransaction] Lost connection to MySQL server during query''
           @ '' | MySQL error code: 2013 | SQLState: HY000'' @ nl
           @ ''[SQL ERROR @ rollback] Lost connection to MySQL server during query''
           @ '' | MySQL error code: 2013 | SQLState: HY000'' @ nl
   \<and> drop 7 (trace (snd (demoTransaction mysql_driver flaky_world)))
       = [Rollback, SetAutoCommit True]
   \<and> autocommit (server (snd (demoTransaction mysql_driver flaky_world)))
   \<and> fst (demoTransaction mysql_driver hiccup_world) = Inl (SQLException lost_connection)
   \<and> cerr (snd (demoTransaction mysql_driver hiccup_world))
       = ''[SQL ERROR @ demoTransaction] Lost connection to MySQL server during query''
           @ '' | MySQL error code: 2013 | SQLState: HY000'' @ nl
           @ ''Transaction rolled back.'' @ nl
   \<and> drop 7 (trace (snd (demoTransaction mysql_driver hiccup_world)))
       = [SetAutoCommit True, Rollback, SetAutoCommit True]
   \<and> autocommit (server (snd (demoTransaction mysql_driver hiccup_world)))"
proof -
  have a: "fst (demoTransaction mysql_driver w) = Inl (SQLException lost_connection)
           \<and> cerr (snd (demoTransaction mysql_driver w))
               = cerr w2 @ sql_error_line lost_connection ''demoTransaction'' @ ln
           \<and> trace (snd (demoTransaction mysql_driver w)) = trace w2 @ [Rollback, SetAutoCommit True]
           \<and> server (snd (demoTransaction mysql_driver w)) = snd (d_setAutoCommit mysql_driver True s3)"
    if off: "d_setAutoCommit mysql_driver False (server w) = (Inr (), s0)"
      and body: "demo_try mysql_driver (w\<lparr>server := s0, trace := trace w @ [SetAutoCommit False]\<rparr>)
                   = (Inl (SQLException lost_connection), w2)"
      and rb: "d_rollback mysql_driver (server w2) = (Inr (), s3) \<and> ln = ''Transaction rolled back.'' @ nl
               \<or> d_rollback mysql_driver (server w2) = (Inl (SQLException lost_connection), s3)
                  \<and> ln = sql_error_line lost_connection ''rollback''"
      and on: "fst (d_setAutoCommit mysql_driver True s3) = Inr ()"
    for w :: "mysql world" and s0 w2 s3 ln
    using demoTransaction_rolls_back_and_rethrows[OF off body, of s3 lost_connection] rb on
    by auto
  let ?F = flaky_world
  let ?offF = "d_setAutoCommit mysql_driver False (server ?F)"
  let ?F1 = "?F\<lparr>server := snd ?offF, trace := trace ?F @ [SetAutoCommit False]\<rparr>"
  let ?F2 = "snd (demo_try mysql_driver ?F1)"
  let ?rbF = "d_rollback mysql_driver (server ?F2)"
  have f1: "?offF = (Inr (), snd ?offF)"
    by (simp add: prod_eq_iff mysql_defs flaky_world_def world_of_def server_with_def
        failing_commit_and_rollback_def)
  have f2: "demo_try mysql_driver ?F1 = (Inl (SQLException lost_connection), ?F2)"
    by (simp add: prod_eq_iff demo_defs conn_defs prog_defs mysql_defs flaky_world_def
        world_of_def server_with_def failing_commit_and_rollback_def)
  have fw: "cerr ?F2 = []" "length (trace ?F2) = 7"
      "fault (server ?F2) = failing_commit_and_rollback"
    by (simp_all add: demo_defs conn_defs prog_defs mysql_defs flaky_world_def world_of_def
        server_with_def failing_commit_and_rollback_def)
  have f3: "?rbF = (Inl (SQLException lost_connection), snd ?rbF)"
    using fw(3) by (simp add: prod_eq_iff guarded_def failing_commit_and_rollback_def)
  have f4: "fst (d_setAutoCommit mysql_driver True (snd ?rbF)) = Inr ()"
      "autocommit (snd (d_setAutoCommit mysql_driver True (snd ?rbF)))"
    using fw(3)
    by (simp_all add: guarded_def failing_commit_and_rollback_def mysql_setAutoCommit_def)
  let ?H = hiccup_world
  let ?offH = "d_setAutoCommit mysql_driver False (server ?H)"
  let ?H1 = "?H\<lparr>server := snd ?offH, trace := trace ?H @ [SetAutoCommit False]\<rparr>"
  let ?H2 = "snd (demo_try mysql_driver ?H1)"
  let ?rbH = "d_rollback mysql_driver (server ?H2)"
  have h1: "?offH = (Inr (), snd ?offH)"
    by (simp add: prod_eq_iff mysql_defs hiccup_world_def world_of_def server_with_def
        lost_only_at_def)
  have h2: "demo_try mysql_driver ?H1 = (Inl (SQLException lost_connection), ?H2)"
    by (simp add: prod_eq_iff demo_defs conn_defs prog_defs mysql_defs hiccup_world_def
        world_of_def server_with_def lost_only_at_def)
  have hw: "cerr ?H2 = []" "length (trace ?H2) = 8" "drop 7 (trace ?H2) = [SetAutoCommit True]"
      "fault (server ?H2) = lost_only_at 7" "clock (server ?H2) = 8"
    by (simp_all add: demo_defs conn_defs prog_defs mysql_defs hiccup_world_def world_of_def
        server_with_def lost_only_at_def)
  have h3: "?rbH = (Inr (), snd ?rbH)"
    using hw(4,5) by (simp add: prod_eq_iff guarded_def lost_only_at_def)
  have h4: "fst (d_setAutoCommit mysql_driver True (snd ?rbH)) = Inr ()"
      "autocommit (snd (d_setAutoCommit mysql_driver True (snd ?rbH)))"
    using hw(4,5) by (simp_all add: guarded_def lost_only_at_def mysql_setAutoCommit_def)
  have ln: "sql_error_line lost_connection ''demoTransaction''
              = ''[SQL ERROR @ demoTransaction] Lost connection to MySQL server during query''
                  @ '' | MySQL error code: 2013 | SQLState: HY000'' @ nl"
    "sql_error_line lost_connection ''rollback''
              = ''[SQL ERROR @ rollback] Lost connection to MySQL server during query''
                  @ '' | MySQL error code: 2013 | SQLState: HY000'' @ nl"
    by (simp_all add: sql_error_line_def lost_connection_def show_int_def show_nat.simps)
  from a[OF f1 f2 _ f4(1), of "sql_error_line lost_connection ''rollback''"] f3 f4(2) fw
  have A: "fst (demoTransaction mysql_driver ?F) = Inl (SQLException lost_connection)
     \<and> cerr (snd (demoTransaction mysql_driver ?F))
         = sql_error_line lost_connection ''demoTransaction''
             @ sql_error_line lost_connection ''rollback''
     \<and> drop 7 (trace (snd (demoTransaction mysql_driver ?F))) = [Rollback, SetAutoCommit True]
     \<and> autocommit (server (snd (demoTransaction mysql_driver ?F)))"
    by simp
  from a[OF h1 h2 _ h4(1), of "''Transaction rolled back.'' @ nl"] h3 h4(2) hw
  have B: "fst (demoTransaction mysql_driver ?H) = Inl (SQLException lost_connection)
     \<and> cerr (snd (demoTransaction mysql_driver ?H))
         = sql_error_line lost_connection ''demoTransaction'' @ ''Transaction rolled back.'' @ nl
     \<and> drop 7 (trace (snd (demoTransaction mysql_driver ?H)))
         = [SetAutoCommit True, Rollback, SetAutoCommit True]
     \<and> autocommit (server (snd (demoTransaction mysql_driver ?H)))"
    by simp
  from A B show ?thesis unfolding ln by simp
qed

subsection \<open>C4: what \<^verbatim>\<open>insertUser\<close> binds and returns\<close>

text \<open>
  Claim C4.  For every user record and every driver: \<^verbatim>\<open>insertUser\<close> binds the name to the
  first placeholder and, to the second, \<^verbatim>\<open>NULL\<close> exactly when the age is 0 and the integer age
  otherwise.  When the driver answers the four calls normally, the function has sent, in this
  order and on the one connection, the preparation of the insert, its execution with these
  bindings, the creation of a statement and the query \<^verbatim>\<open>SELECT LAST_INSERT_ID()\<close>; it returns
  column 1 of the first row of that query's result, and 0 when the result has no row.
\<close>

theorem insertUser_binds_and_reads_back:
  fixes drv :: "'s driver"
  assumes prep: "d_prepareStatement drv insert_sql (server w) = (Inr (), s1)"
      and upd: "d_ps_executeUpdate drv insert_sql (user_bindings u) s1 = (Inr n, s2)"
      and stmt: "d_createStatement drv s2 = (Inr (), s3)"
      and qry: "d_executeQuery drv last_insert_id_sql s3 = (Inr rs, s4)"
  shows "(user_bindings u 2 = Some PNull \<longleftrightarrow> u_age u = 0)
       \<and> (u_age u \<noteq> 0 \<longrightarrow> user_bindings u 2 = Some (PInt (u_age u)))
       \<and> user_bindings u 1 = Some (PString (u_name u))
       \<and> insertUser drv u w =
           (Inr (case rs of [] \<Rightarrow> 0 | r # _ \<Rightarrow> getInt_at r 1),
            w\<lparr>server := s4,
              trace := trace w @ [PrepareStatement insert_sql,
                                  PsExecuteUpdate insert_sql (user_bindings u),
                                  CreateStatement, ExecuteQuery last_insert_id_sql]\<rparr>)"
proof -
  have b: "ps_params (bind_user \<lparr>ps_sql = insert_sql, ps_params = Map.empty\<rparr> u) = user_bindings u"
    by (rule bind_user_fresh) simp
  have "insertUser drv u w =
           (Inr (case rs of [] \<Rightarrow> 0 | r # _ \<Rightarrow> getInt_at r 1),
            w\<lparr>server := s4,
              trace := trace w @ [PrepareStatement insert_sql,
                                  PsExecuteUpdate insert_sql (user_bindings u),
                                  CreateStatement, ExecuteQuery last_insert_id_sql]\<rparr>)"
    using prep upd stmt qry
    by (simp add: insertUser_def conn_defs prog_defs b)
  then show ?thesis by (simp add: user_bindings_def)
qed

text \<open>
  An instance: inserting carol into the empty table of a working session returns the
  identifier 1, after exactly the four requests.
\<close>

theorem insertUser_binds_and_reads_back_witness:
  "fst (insertUser mysql_driver carol (world_of (server_with [] 1))) = Inr 1
   \<and> user_bindings carol 2 = Some (PInt 32)
   \<and> trace (snd (insertUser mysql_driver carol (world_of (server_with [] 1))))
       = [PrepareStatement insert_sql, PsExecuteUpdate insert_sql (user_bindings carol),
          CreateStatement, ExecuteQuery last_insert_id_sql]"
proof -
  let ?w = "world_of (server_with [] 1)"
  let ?p1 = "d_prepareStatement mysql_driver insert_sql (server ?w)"
  let ?p2 = "d_ps_executeUpdate mysql_driver insert_sql (user_bindings carol) (snd ?p1)"
  let ?p3 = "d_createStatement mysql_driver (snd ?p2)"
  let ?p4 = "d_executeQuery mysql_driver last_insert_id_sql (snd ?p3)"
  have h1: "?p1 = (Inr (), snd ?p1)"
    by (simp add: prod_eq_iff world_of_def server_with_def mysql_defs)
  have h2: "?p2 = (Inr 1, snd ?p2)"
    by (simp add: prod_eq_iff world_of_def server_with_def mysql_defs user_bindings_def carol_def)
  have h3: "?p3 = (Inr (), snd ?p3)"
    by (simp add: prod_eq_iff world_of_def server_with_def mysql_defs user_bindings_def carol_def)
  have h4: "?p4 = (Inr [scalar_rs 1], snd ?p4)"
    by (simp add: prod_eq_iff world_of_def server_with_def mysql_defs user_bindings_def carol_def)
  from insertUser_binds_and_reads_back[OF h1 h2 h3 h4]
  show ?thesis
    by (simp add: scalar_rs_def world_of_def carol_def)
qed

subsection \<open>C5: the result of \<^verbatim>\<open>getUsersByMinAge\<close>\<close>

text \<open>
  Claim C5.  For every minimum age, \<^verbatim>\<open>getUsersByMinAge\<close> returns a list (the whole result,
  read before the function returns).  For every driver, the list holds one record for each
  row of the result set, in the order of the rows, and a row whose age is \<^verbatim>\<open>NULL\<close> becomes a
  record with age 0.  Against the model of the service the list is ordered by age
  descending, ties by identifier ascending, and holds exactly the stored rows whose age is
  at least the minimum; for the stored rows (bob, 31), (carol, 32), (alice, 25) and the
  minimum 25 the order is carol, bob, alice.
\<close>

theorem getUsersByMinAge_sorted_and_null_as_zero:
  fixes drv :: "'s driver"
  shows "(d_prepareStatement drv select_sql (server w) = (Inr (), s1) \<longrightarrow>
          d_ps_executeQuery drv select_sql [1 \<mapsto> PInt minAge] s1 = (Inr rs, s2) \<longrightarrow>
            fst (getUsersByMinAge drv minAge w) = Inr (map user_of_row rs)
          \<and> (\<forall>r \<in> set rs. isNull r ''age'' \<longrightarrow> u_age (user_of_row r) = 0))
       \<and> (fault (server mw) = no_faults \<longrightarrow> users_table (server mw) = Inr (d, t) \<longrightarrow>
            (\<exists>us. fst (getUsersByMinAge mysql_driver minAge mw) = Inr us
               \<and> sorted_wrt age_desc_id_asc us
               \<and> set us = user_of ` {r \<in> set (trows t). age_at_least minAge r}
               \<and> length us = length (filter (age_at_least minAge) (trows t))
               \<and> (trows t = example_rows i j k \<and> minAge = 25 \<longrightarrow>
                    map u_name us = [''carol'', ''bob'', ''alice''])))"
proof (intro conjI impI)
  assume "d_prepareStatement drv select_sql (server w) = (Inr (), s1)"
     and "d_ps_executeQuery drv select_sql [1 \<mapsto> PInt minAge] s1 = (Inr rs, s2)"
  then show "fst (getUsersByMinAge drv minAge w) = Inr (map user_of_row rs)"
    by (simp add: getUsersByMinAge_def conn_defs prog_defs fetch_users_map)
  show "\<forall>r \<in> set rs. isNull r ''age'' \<longrightarrow> u_age (user_of_row r) = 0"
    by (simp add: user_of_row_def)
next
  assume nf: "fault (server mw) = no_faults" and tbl: "users_table (server mw) = Inr (d, t)"
  let ?rows = "sort_key order_key (filter (age_at_least minAge) (trows t))"
  note run = select_run[OF nf tbl, of minAge]
  have srt: "sorted_wrt age_desc_id_asc (map user_of ?rows)"
    by (rule sorted_by_order_key) simp
  have st: "set (map user_of ?rows) = user_of ` {r \<in> set (trows t). age_at_least minAge r}"
    by auto
  have ln: "length (map user_of ?rows) = length (filter (age_at_least minAge) (trows t))"
    by simp
  have ex: "trows t = example_rows i j k \<and> minAge = 25 \<longrightarrow>
              map u_name (map user_of ?rows) = [''carol'', ''bob'', ''alice'']"
    by (simp add: example_rows_def age_at_least_def order_key_def age_or_0_def user_of_def
        less_eq_prod_def)
  show "\<exists>us. fst (getUsersByMinAge mysql_driver minAge mw) = Inr us
               \<and> sorted_wrt age_desc_id_asc us
               \<and> set us = user_of ` {r \<in> set (trows t). age_at_least minAge r}
               \<and> length us = length (filter (age_at_least minAge) (trows t))
               \<and> (trows t = example_rows i j k \<and> minAge = 25 \<longrightarrow>
                    map u_name us = [''carol'', ''bob'', ''alice''])"
    by (intro exI[of _ "map user_of ?rows"] conjI run srt st ln ex)
qed

text \<open>An instance: the example's rows, stored with the identifiers 3, 1 and 2.\<close>

theorem getUsersByMinAge_sorted_and_null_as_zero_witness:
  "\<exists>us. fst (getUsersByMinAge mysql_driver 25 (world_of (server_with (example_rows 3 1 2) 4))) = Inr us
     \<and> sorted_wrt age_desc_id_asc us
     \<and> map u_name us = [''carol'', ''bob'', ''alice'']"
proof -
  let ?w = "world_of (server_with (example_rows 3 1 2) 4)"
  let ?t = "\<lparr>trows = example_rows 3 1 2, tsaved = example_rows 3 1 2, tnext = 4\<rparr>"
  have nf: "fault (server ?w) = no_faults" and tbl: "users_table (server ?w) = Inr (''testdb'', ?t)"
    by simp_all
  from getUsersByMinAge_sorted_and_null_as_zero[where i=3 and j=1 and k=2 and minAge=25
         and mw="?w" and d="''testdb''" and t="?t", THEN conjunct2, rule_format, OF nf tbl]
  obtain us where "fst (getUsersByMinAge mysql_driver 25 ?w) = Inr us"
    "sorted_wrt age_desc_id_asc us"
    "trows ?t = example_rows 3 1 2 \<and> (25::int) = 25 \<longrightarrow> map u_name us = [''carol'', ''bob'', ''alice'']"
    by (elim exE conjE)
  then show ?thesis by (intro exI[of _ us]) simp
qed

subsection \<open>C6: the count that \<^verbatim>\<open>updateUserAgeByName\<close> returns\<close>

text \<open>
  Claim C6 says that \<^verbatim>\<open>updateUserAgeByName\<close> returns the number of rows matched.  It returns
  what \<^verbatim>\<open>executeUpdate\<close> reports (the source's own comment: "number of rows affected"), and
  for an \<^verbatim>\<open>UPDATE\<close> MySQL reports the rows it changed: with bob stored at age 31, setting
  bob's age to 31 matches one row and returns 0.
\<close>

theorem updateUserAgeByName_counts_matched_rows_counterexample:
  "fst (updateUserAgeByName mysql_driver ''bob'' 31 (world_of (server_with [bob_31] 2))) = Inr 0
   \<and> matched ''bob'' [bob_31] = 1"
  by (simp add: update_run changed_def matched_def bob_31_def)

text \<open>
  Claim C6, amended.  For every name and new age, on a session where nothing is made to
  fail and the table exists, \<^verbatim>\<open>updateUserAgeByName\<close> sends one prepared update with the age
  and the name bound, and returns the number of rows with that name whose age the update
  changes; when no row has the name it returns 0, raises nothing, and leaves the rows of
  every database as they were.
\<close>

theorem updateUserAgeByName_returns_changed_rows:
  assumes nf: "fault (server w) = no_faults"
      and tbl: "users_table (server w) = Inr (d, t)"
  shows "\<exists>w'. updateUserAgeByName mysql_driver nm a w = (Inr (int (changed nm a (trows t))), w')
         \<and> trace w' = trace w @ [PrepareStatement update_sql,
                                  PsExecuteUpdate update_sql (update_bindings nm a)]
         \<and> (nm \<notin> rname ` set (trows t) \<longrightarrow>
              changed nm a (trows t) = 0 \<and> visible_rows (server w') = visible_rows (server w))"
proof -
  have ch: "nm \<notin> rname ` set (trows t) \<Longrightarrow> changed nm a (trows t) = 0"
    by (auto simp: changed_def filter_empty_conv)
  have vis: "nm \<notin> rname ` set (trows t) \<Longrightarrow>
      visible_rows (put_table d (t\<lparr>trows := update_rows nm a (trows t)\<rparr>)
                     ((server w)\<lparr>clock := Suc (Suc (clock (server w)))\<rparr>)) = visible_rows (server w)"
    using tbl by (simp add: visible_rows_put_same update_rows_no_match)
  show ?thesis
    unfolding update_run[OF nf tbl] using ch vis by simp
qed

text \<open>Instances: a name that is not stored, and a stored name with a new age.\<close>

theorem updateUserAgeByName_returns_changed_rows_witness:
  "(\<exists>w'. updateUserAgeByName mysql_driver ''zed'' 40 (world_of (server_with [bob_31] 2)) = (Inr 0, w')
         \<and> visible_rows (server w') = visible_rows (server (world_of (server_with [bob_31] 2))))
   \<and> (\<exists>w'. updateUserAgeByName mysql_driver ''bob'' 40 (world_of (server_with [bob_31] 2)) = (Inr 1, w'))"
proof -
  let ?w = "world_of (server_with [bob_31] 2)"
  let ?t = "\<lparr>trows = [bob_31], tsaved = [bob_31], tnext = 2\<rparr>"
  have nf: "fault (server ?w) = no_faults" and tbl: "users_table (server ?w) = Inr (''testdb'', ?t)"
    by simp_all
  have c0: "changed ''zed'' 40 (trows ?t) = 0" and c1: "changed ''bob'' 40 (trows ?t) = 1"
    and nm: "''zed'' \<notin> rname ` set (trows ?t)"
    by (simp_all add: changed_def bob_31_def)
  from updateUserAgeByName_returns_changed_rows[OF nf tbl, of "''zed''" 40] c0 nm
  have a: "\<exists>w'. updateUserAgeByName mysql_driver ''zed'' 40 ?w = (Inr 0, w')
         \<and> visible_rows (server w') = visible_rows (server ?w)"
    by auto
  from updateUserAgeByName_returns_changed_rows[OF nf tbl, of "''bob''" 40] c1
  have b: "\<exists>w'. updateUserAgeByName mysql_driver ''bob'' 40 ?w = (Inr 1, w')"
    by auto
  from a b show ?thesis by (rule conjI)
qed

subsection \<open>C7: the requests of \<^verbatim>\<open>insertUsersBulk\<close>\<close>



subsection \<open>C8: \<^verbatim>\<open>ensureSchemaAndTables\<close> twice\<close>

text \<open>
  Claim C8 says that two calls in a row with the same non-empty schema name raise no error.
  \<^verbatim>\<open>ensureSchemaAndTables\<close> puts the name between backticks and does not escape it, while
  \<^verbatim>\<open>setSchema\<close>, two statements on, is given the same name as it is.  For a name with a backtick
  in it, which the server takes as the name of a database, the text that is sent is therefore
  not the statement meant: the backtick of the name ends the quoted identifier.  The server
  rejects the text, and the first call already raises, after two requests and with no
  database created.
\<close>

theorem ensureSchemaAndTables_backtick_name_fails:
  "ensureSchemaAndTables mysql_driver ''a`b'' (world_of fresh_server)
     = (Inl ER_PARSE_ERROR,
        \<lparr>server = fresh_server\<lparr>clock := 2\<rparr>,
         trace = [CreateStatement, Execute ''CREATE DATABASE IF NOT EXISTS `a`b`''],
         cout = [], cerr = []\<rparr>)
   \<and> fst (create_database ''a`b'' fresh_server) = Inr ()"
  by (simp add: ensureSchemaAndTables_def conn_defs prog_defs world_of_def fresh_server_def
      guarded_def no_faults_def mysql_execute_def parse_create_database_def create_database_def
      create_database_sql_def create_table_sql_def delete_sql_def backtick_def Let_def)

subsection \<open>C9: exit code and diagnostic of \<^verbatim>\<open>main\<close>\<close>

text \<open>
  Claim C9 says that the diagnostic of an error that ends the program carries a context tag
  that identifies the operation that failed.  A generic exception is printed as
  \<^verbatim>\<open>[STD ERROR] message\<close>, which is no line of \<^verbatim>\<open>printSqlError\<close> for any tag; and the tag of a
  database error is always \<open>main\<close>: a connection lost in \<^verbatim>\<open>connect\<close> and one lost in the first
  \<^verbatim>\<open>execute\<close> print the same line.  In each of these runs the exit code is 1.
\<close>

theorem main_diagnostic_context_tag_counterexample:
  "fst (main mysql_driver (world_of (fresh_server\<lparr>fault := bad_alloc_on_connect\<rparr>))) = 1
   \<and> cerr (snd (main mysql_driver (world_of (fresh_server\<lparr>fault := bad_alloc_on_connect\<rparr>))))
       = ''[STD ERROR] std::bad_alloc'' @ nl
   \<and> (\<forall>e at. ''[STD ERROR] std::bad_alloc'' @ nl \<noteq> sql_error_line e at)
   \<and> cerr (snd (main mysql_driver (world_of (fresh_server\<lparr>fault := lost_on_connect\<rparr>))))
       = sql_error_line lost_connection ''main''
   \<and> cerr (snd (main mysql_driver (world_of (fresh_server\<lparr>fault := lost_on_execute\<rparr>))))
       = sql_error_line lost_connection ''main''"
  by (simp add: main_defs conn_defs prog_defs mysql_defs world_of_def fresh_server_def
      bad_alloc_on_connect_def lost_on_connect_def lost_on_execute_def sql_error_line_def
      ensureSchemaAndTables_def)

text \<open>
  Claim C9, amended.  For every driver: \<^verbatim>\<open>main\<close> exits with 0 when its \<^verbatim>\<open>try\<close> block ends
  normally, and with 1 when a database error or a generic exception leaves the block, after
  printing to the error stream the line of \<^verbatim>\<open>printSqlError\<close> with the tag \<open>main\<close> for the
  database error, or \<^verbatim>\<open>[STD ERROR]\<close> and the message for the generic exception.  Against a
  session on which nothing is made to fail (and whose counter has room for the three rows),
  every step succeeds: the exit code is 0 and nothing is printed to the error stream.
\<close>

theorem main_exit_code_and_diagnostic:
  fixes drv :: "'s driver"
  shows "(main_try drv default_DbConfig w = (Inr (), w') \<longrightarrow> main drv w = (0, w'))
       \<and> (main_try drv default_DbConfig w = (Inl (SQLException e), w') \<longrightarrow>
            main drv w = (1, w'\<lparr>cerr := cerr w' @ sql_error_line e ''main''\<rparr>))
       \<and> (main_try drv default_DbConfig w = (Inl (StdException msg), w') \<longrightarrow>
            main drv w = (1, w'\<lparr>cerr := cerr w' @ ''[STD ERROR] '' @ msg @ nl\<rparr>))
       \<and> (fault (server mw) = no_faults \<longrightarrow> room_for_three (server mw) \<longrightarrow>
            fst (main mysql_driver mw) = 0 \<and> cerr (snd (main mysql_driver mw)) = cerr mw)"
  using main_run[of mw]
  by (simp add: main_def printSqlError_def print_err_def)

text \<open>Instances: a run without failures, a lost connection, and a failed allocation.\<close>

theorem main_exit_code_and_diagnostic_witness:
  "fst (main mysql_driver (world_of fresh_server)) = 0
   \<and> main mysql_driver (world_of (fresh_server\<lparr>fault := lost_on_connect\<rparr>))
       = (1, (snd (main_try mysql_driver default_DbConfig
                    (world_of (fresh_server\<lparr>fault := lost_on_connect\<rparr>))))
               \<lparr>cerr := sql_error_line lost_connection ''main''\<rparr>)
   \<and> main mysql_driver (world_of (fresh_server\<lparr>fault := bad_alloc_on_connect\<rparr>))
       = (1, (snd (main_try mysql_driver default_DbConfig
                    (world_of (fresh_server\<lparr>fault := bad_alloc_on_connect\<rparr>))))
               \<lparr>cerr := ''[STD ERROR] std::bad_alloc'' @ nl\<rparr>)"
proof -
  let ?w0 = "world_of fresh_server"
  let ?w1 = "world_of (fresh_server\<lparr>fault := lost_on_connect\<rparr>)"
  let ?w2 = "world_of (fresh_server\<lparr>fault := bad_alloc_on_connect\<rparr>)"
  let ?t1 = "main_try mysql_driver default_DbConfig ?w1"
  let ?t2 = "main_try mysql_driver default_DbConfig ?w2"
  have nf: "fault (server ?w0) = no_faults" and room: "room_for_three (server ?w0)"
    by (simp_all add: world_of_def fresh_server_def room_for_three_def)
  have h1: "?t1 = (Inl (SQLException lost_connection), snd ?t1)" and c1: "cerr (snd ?t1) = []"
    by (simp_all add: prod_eq_iff main_defs conn_defs prog_defs mysql_defs world_of_def
        fresh_server_def lost_on_connect_def)
  have h2: "?t2 = (Inl (StdException ''std::bad_alloc''), snd ?t2)" and c2: "cerr (snd ?t2) = []"
    by (simp_all add: prod_eq_iff main_defs conn_defs prog_defs mysql_defs world_of_def
        fresh_server_def bad_alloc_on_connect_def)
  note a = main_exit_code_and_diagnostic[where mw="?w0" and w="?w1" and w'="snd ?t1"
      and e=lost_connection and drv=mysql_driver, THEN conjunct2, THEN conjunct2, THEN conjunct2,
      rule_format, OF nf room]
  note b = main_exit_code_and_diagnostic[where w="?w1" and w'="snd ?t1"
      and e=lost_connection and drv=mysql_driver, THEN conjunct2, THEN conjunct1,
      rule_format, OF h1]
  note c = main_exit_code_and_diagnostic[where w="?w2" and w'="snd ?t2"
      and msg="''std::bad_alloc''" and drv=mysql_driver, THEN conjunct2, THEN conjunct2,
      THEN conjunct1, rule_format, OF h2]
  from a b c c1 c2 show ?thesis by simp
qed

subsection \<open>C10: \<^verbatim>\<open>updateUserAgeByName\<close> binds the age as an integer\<close>

text \<open>
  Claim C10.  For every name and every new age, 0 included, and every driver:
  \<^verbatim>\<open>updateUserAgeByName\<close> executes the update with the integer age bound to the first
  placeholder, never \<^verbatim>\<open>NULL\<close>; the two insert functions bind \<^verbatim>\<open>NULL\<close> for the age 0.  Against
  the model of the service, an update to the age 0 stores the integer 0 in every row of that
  name.
\<close>

theorem updateUserAgeByName_binds_age_as_integer:
  fixes drv :: "'s driver"
  shows "(d_prepareStatement drv update_sql (server w) = (Inr (), s1) \<longrightarrow>
            trace (snd (updateUserAgeByName drv nm newAge w)) =
              trace w @ [PrepareStatement update_sql,
                         PsExecuteUpdate update_sql [1 \<mapsto> PInt newAge, 2 \<mapsto> PString nm]])
       \<and> (u_age u = 0 \<longrightarrow> ps_params (bind_user ps u) 2 = Some PNull)
       \<and> (fault (server mw) = no_faults \<longrightarrow> users_table (server mw) = Inr (d, t) \<longrightarrow>
            (\<exists>n mw' t'. updateUserAgeByName mysql_driver nm 0 mw = (Inr n, mw')
               \<and> users_table (server mw') = Inr (d, t')
               \<and> map rid (trows t') = map rid (trows t)
               \<and> map rname (trows t') = map rname (trows t)
               \<and> (\<forall>r \<in> set (trows t'). rname r = nm \<longrightarrow> rage r = Some 0)))"
proof (intro conjI impI)
  assume "d_prepareStatement drv update_sql (server w) = (Inr (), s1)"
  then show "trace (snd (updateUserAgeByName drv nm newAge w)) =
              trace w @ [PrepareStatement update_sql,
                         PsExecuteUpdate update_sql [1 \<mapsto> PInt newAge, 2 \<mapsto> PString nm]]"
    by (simp add: updateUserAgeByName_def conn_defs prog_defs split: prod.splits)
next
  assume "u_age u = 0"
  then show "ps_params (bind_user ps u) 2 = Some PNull"
    by (simp add: bind_user_params)
next
  assume nf: "fault (server mw) = no_faults" and tbl: "users_table (server mw) = Inr (d, t)"
  have tbl': "users_table (after_dml (put_table d (t\<lparr>trows := update_rows nm 0 (trows t)\<rparr>)
                                    ((server mw)\<lparr>clock := Suc (Suc (clock (server mw)))\<rparr>)))
        = Inr (d, if autocommit (server mw)
                  then t\<lparr>trows := update_rows nm 0 (trows t), tsaved := update_rows nm 0 (trows t)\<rparr>
                  else t\<lparr>trows := update_rows nm 0 (trows t)\<rparr>)"
    using tbl by (simp add: users_table_after_put)
  show "\<exists>n mw' t'. updateUserAgeByName mysql_driver nm 0 mw = (Inr n, mw')
               \<and> users_table (server mw') = Inr (d, t')
               \<and> map rid (trows t') = map rid (trows t)
               \<and> map rname (trows t') = map rname (trows t)
               \<and> (\<forall>r \<in> set (trows t'). rname r = nm \<longrightarrow> rage r = Some 0)"
    unfolding update_run[OF nf tbl] using tbl' update_rows_ages[of _ nm 0 "trows t"]
    by (cases "autocommit (server mw)") auto
qed

text \<open>An instance: bob, stored at 31, updated to the age 0.\<close>

theorem updateUserAgeByName_binds_age_as_integer_witness:
  "trace (snd (updateUserAgeByName mysql_driver ''bob'' 0 (world_of (server_with [bob_31] 2))))
     = [PrepareStatement update_sql,
        PsExecuteUpdate update_sql [1 \<mapsto> PInt 0, 2 \<mapsto> PString ''bob'']]
   \<and> ps_params (bind_user \<lparr>ps_sql = insert_sql, ps_params = Map.empty\<rparr>
                  \<lparr>u_id = 0, u_name = ''bob'', u_age = 0\<rparr>) 2 = Some PNull
   \<and> (\<exists>n mw' t'. updateUserAgeByName mysql_driver ''bob'' 0 (world_of (server_with [bob_31] 2))
                     = (Inr n, mw')
        \<and> users_table (server mw') = Inr (''testdb'', t')
        \<and> map rage (trows t') = [Some 0])"
proof -
  let ?w = "world_of (server_with [bob_31] 2)"
  let ?t = "\<lparr>trows = [bob_31], tsaved = [bob_31], tnext = 2\<rparr>"
  let ?u = "\<lparr>u_id = 0, u_name = ''bob'', u_age = 0\<rparr>"
  let ?ps = "\<lparr>ps_sql = insert_sql, ps_params = Map.empty\<rparr>"
  let ?p1 = "d_prepareStatement mysql_driver update_sql (server ?w)"
  note inst = updateUserAgeByName_binds_age_as_integer[of mysql_driver ?w "snd ?p1" "''bob''" 0
      ?u ?ps ?w "''testdb''" ?t]
  have h1: "?p1 = (Inr (), snd ?p1)"
    by (simp add: prod_eq_iff world_of_def server_with_def mysql_defs)
  have h2: "u_age ?u = 0" by simp
  have nf: "fault (server ?w) = no_faults" and tbl: "users_table (server ?w) = Inr (''testdb'', ?t)"
    by simp_all
  from inst h1 have a: "trace (snd (updateUserAgeByName mysql_driver ''bob'' 0 ?w))
     = trace ?w @ [PrepareStatement update_sql,
        PsExecuteUpdate update_sql [1 \<mapsto> PInt 0, 2 \<mapsto> PString ''bob'']]"
    by blast
  from inst h2 have b: "ps_params (bind_user ?ps ?u) 2 = Some PNull"
    by blast
  from inst nf tbl obtain n mw' t' where c:
    "updateUserAgeByName mysql_driver ''bob'' 0 ?w = (Inr n, mw')"
    "users_table (server mw') = Inr (''testdb'', t')"
    "map rname (trows t') = map rname (trows ?t)"
    "\<forall>r \<in> set (trows t'). rname r = ''bob'' \<longrightarrow> rage r = Some 0"
    by blast
  from c(3) obtain r where r: "trows t' = [r]" "rname r = ''bob''"
    by (auto simp: bob_31_def map_eq_Cons_conv)
  with c(4) have "map rage (trows t') = [Some 0]" by simp
  with a b c(1,2) show ?thesis by (auto simp: world_of_def)
qed

end
